theory Spec2Isabelle
  imports Complex_Main "HOL-Library.Word"
begin

section \<open>Strings\<close>

text \<open>
  A JavaScript string is a sequence of UTF-16 code units. \<open>String.prototype.includes\<close>,
  \<open>startsWith\<close>, \<open>trim\<close> and a regular expression without the \<open>u\<close> flag all work
  on code units, so the model does too. An ASCII literal of the source is written with
  \<open>ascii\<close>; a Japanese literal is written as the list of its code units.
\<close>

type_synonym jsstring = "16 word list"

definition ascii :: "string \<Rightarrow> jsstring" where
  "ascii s = map of_char s"

text \<open>
  \<open>toLowerCase\<close> is a built-in of the platform. Its effect on the letters A to Z is
  written out; every other code unit is kept. None of the Japanese keywords below has a
  case, and the ASCII keywords are lower-case letters.
\<close>

definition toLowerUnit :: "16 word \<Rightarrow> 16 word" where
  "toLowerUnit c = (if 0x41 \<le> c \<and> c \<le> 0x5A then c + 0x20 else c)"

definition toLowerCase :: "jsstring \<Rightarrow> jsstring" where
  "toLowerCase s = map toLowerUnit s"

fun startsWith :: "jsstring \<Rightarrow> jsstring \<Rightarrow> bool" where
  "startsWith s [] = True"
| "startsWith [] (p # ps) = False"
| "startsWith (c # cs) (p # ps) = (c = p \<and> startsWith cs ps)"

fun includes_str :: "jsstring \<Rightarrow> jsstring \<Rightarrow> bool" where
  "includes_str [] pat = startsWith [] pat"
| "includes_str (c # cs) pat = (startsWith (c # cs) pat \<or> includes_str cs pat)"

text \<open>
  \<open>trim\<close> removes the white space and line terminators of ECMAScript from both ends.
\<close>

definition isWhiteSpace :: "16 word \<Rightarrow> bool" where
  "isWhiteSpace c =
     (c = 0x0009 \<or> c = 0x000A \<or> c = 0x000B \<or> c = 0x000C \<or> c = 0x000D \<or> c = 0x0020 \<or>
      c = 0x00A0 \<or> c = 0x1680 \<or> (0x2000 \<le> c \<and> c \<le> 0x200A) \<or> c = 0x2028 \<or>
      c = 0x2029 \<or> c = 0x202F \<or> c = 0x205F \<or> c = 0x3000 \<or> c = 0xFEFF)"

definition trim :: "jsstring \<Rightarrow> jsstring" where
  "trim s = rev (dropWhile isWhiteSpace (rev (dropWhile isWhiteSpace s)))"

section \<open>Data model of AutonomousVoiceAgent.tsx\<close>

datatype lang = Ja | En

datatype speaker = User | Agent

datatype task_kind = Onboarding | Followup | Logging

datatype task_status = Active | Completed | Failed

text \<open>
  A JavaScript number that holds a count is an \<open>int\<close>. \<open>progress\<close> is a quotient;
  it is kept as an exact rational, and \<open>NonFinite\<close> stands for the NaN or infinity that
  a division by a zero length gives.
\<close>

datatype jsnumber = Finite rat | NonFinite

record ConversationTurn =
  turn_id :: nat
  turn_type :: speaker
  content :: jsstring
  timestamp :: nat
  turn_language :: lang
  reasoning :: "jsstring option"
  actions :: "jsstring list option"
  confidence :: "rat option"

text \<open>\<open>task_id\<close> is the value of \<open>Date.now()\<close> whose decimal rendering is the id.\<close>

record TaskContext =
  task_id :: nat
  task_type :: task_kind
  status :: task_status
  steps :: "jsstring list"
  currentStep :: int
  customerInfo :: "jsstring option"
  progress :: jsnumber

section \<open>Utility functions\<close>

text \<open>
  The character class of \<open>japaneseRegex\<close>: the code units U+3040 to U+309F,
  U+30A0 to U+30FF and U+4E00 to U+9FAF.
\<close>

definition japaneseClass :: "16 word \<Rightarrow> bool" where
  "japaneseClass c =
     ((0x3040 \<le> c \<and> c \<le> 0x309F) \<or> (0x30A0 \<le> c \<and> c \<le> 0x30FF) \<or>
      (0x4E00 \<le> c \<and> c \<le> 0x9FAF))"

text \<open>\<open>regex.test\<close> of a one-character class scans the string from the left.\<close>

fun japaneseRegex_test :: "jsstring \<Rightarrow> bool" where
  "japaneseRegex_test [] = False"
| "japaneseRegex_test (c # cs) = (japaneseClass c \<or> japaneseRegex_test cs)"

definition detectLanguage :: "jsstring \<Rightarrow> lang" where
  "detectLanguage text = (if japaneseRegex_test text then Ja else En)"

definition determineTaskType :: "jsstring \<Rightarrow> task_kind option" where
  "determineTaskType input =
     (let lowerInput = toLowerCase input in
      if includes_str lowerInput [0x5951, 0x7D04] \<or> includes_str lowerInput [0x767B, 0x9332] \<or>
         includes_str lowerInput (ascii ''onboard'') \<or> includes_str lowerInput (ascii ''register'')
      then Some Onboarding
      else if includes_str lowerInput [0x30D5, 0x30A9, 0x30ED, 0x30FC] \<or>
         includes_str lowerInput (ascii ''follow'') \<or>
         includes_str lowerInput [0x30E1, 0x30FC, 0x30EB] \<or> includes_str lowerInput (ascii ''email'')
      then Some Followup
      else if includes_str lowerInput [0x30ED, 0x30B0] \<or> includes_str lowerInput [0x8A18, 0x9332] \<or>
         includes_str lowerInput (ascii ''log'') \<or> includes_str lowerInput (ascii ''visit'')
      then Some Logging
      else None)"

fun getTaskSteps :: "task_kind \<Rightarrow> lang \<Rightarrow> jsstring list" where
  "getTaskSteps Onboarding Ja =
     [[0x9867, 0x5BA2, 0x60C5, 0x5831, 0x53CE, 0x96C6],
      [0x0049, 0x0044, 0x78BA, 0x8A8D],
      [0x30D7, 0x30E9, 0x30F3, 0x9078, 0x629E],
      [0x5951, 0x7D04, 0x66F8, 0x751F, 0x6210],
      [0x30E1, 0x30FC, 0x30EB, 0x9001, 0x4FE1]]"
| "getTaskSteps Onboarding En =
     [ascii ''Customer Info Collection'', ascii ''ID Verification'', ascii ''Plan Selection'',
      ascii ''Contract Generation'', ascii ''Email Sending'']"
| "getTaskSteps Followup Ja =
     [[0x9867, 0x5BA2, 0x72B6, 0x6CC1, 0x78BA, 0x8A8D],
      [0x30D5, 0x30A9, 0x30ED, 0x30FC, 0x30A2, 0x30C3, 0x30D7, 0x5185, 0x5BB9, 0x4F5C, 0x6210],
      [0x30E1, 0x30FC, 0x30EB, 0x002F, 0x0053, 0x004D, 0x0053, 0x9001, 0x4FE1],
      [0x7D50, 0x679C, 0x8A18, 0x9332]]"
| "getTaskSteps Followup En =
     [ascii ''Customer Status Check'', ascii ''Follow-up Content Creation'',
      ascii ''Email/SMS Sending'', ascii ''Result Recording'']"
| "getTaskSteps Logging Ja =
     [[0x8A2A, 0x554F, 0x60C5, 0x5831, 0x8A18, 0x9332],
      [0x4F5C, 0x696D, 0x5185, 0x5BB9, 0x5165, 0x529B],
      [0x30D5, 0x30A9, 0x30FC, 0x30E0, 0x9001, 0x4FE1],
      [0x5B8C, 0x4E86, 0x78BA, 0x8A8D]]"
| "getTaskSteps Logging En =
     [ascii ''Visit Info Recording'', ascii ''Work Content Input'', ascii ''Form Submission'',
      ascii ''Completion Confirmation'']"

section \<open>Platform, props and component state\<close>

record voice =
  voice_name :: jsstring
  voice_lang :: jsstring

record utterance =
  u_text :: jsstring
  u_lang :: jsstring
  u_rate :: rat
  u_pitch :: rat
  u_volume :: rat
  u_voice :: "voice option"

text \<open>
  The calls the components make on the speech output of the platform, in order:
  \<open>speechSynthesis.cancel()\<close>, \<open>speechSynthesis.speak(utterance)\<close>,
  \<open>blink.ai.generateSpeech({text, voice})\<close> and \<open>audio.play()\<close> on the returned url.
\<close>

datatype synth_call =
  SynthCancel
| SynthSpeak utterance
| GenerateSpeech jsstring jsstring
| AudioPlay jsstring

text \<open>The requests sent to the remote task store.\<close>

datatype db_call =
  DbCreate TaskContext lang bool
| DbUpdate nat int jsnumber task_status

datatype dom_exception = NotAllowedError | NotFoundError

datatype log_entry =
  ErrorSpeakingResponse
| ErrorUpdatingTaskContext
| ErrorProcessingInput
| ErrorAccessingMicrophone dom_exception
| SpeechRecognitionNotSupported

datatype resource = Open | Closed

text \<open>
  What the component is given: the optional \<open>onTaskComplete\<close> prop (is it supplied),
  whether \<open>window\<close> has \<open>speechSynthesis\<close> and a speech recogniser, the voices of the
  platform, and the two remote calls of the fallback speech path (\<open>None\<close> and \<open>False\<close>
  are a rejected promise).
\<close>

record env =
  onTaskComplete :: bool
  speechSynthesis :: bool
  speechRecognition :: bool
  getVoices :: "voice list"
  generateSpeech :: "jsstring \<Rightarrow> jsstring \<Rightarrow> jsstring option"
  audioPlay :: "jsstring \<Rightarrow> bool"

text \<open>
  A callback made by \<open>useCallback\<close> is a closure over the values of one render. A
  \<open>view\<close> holds the values a callback reads; what it writes with a state setter goes to
  the state current at that moment.
\<close>

record view =
  v_isActive :: bool
  v_isSpeaking :: bool
  v_isProcessing :: bool
  v_keigoMode :: bool
  v_language :: lang
  v_conversation :: "ConversationTurn list"
  v_currentTask :: "TaskContext option"

text \<open>
  A call of \<open>blink.ai.generateText\<close> that has not settled: the prompt is assembled from
  the conversation and the task of the view, the input, the language of the user turn and
  the keigo mode; \<open>maxTokens\<close> is 300. The continuation of \<open>handleUserInput\<close> keeps
  the input, the user turn and the view.
\<close>

record pending =
  p_input :: jsstring
  p_userTurn :: ConversationTurn
  p_view :: view
  p_maxTokens :: nat

text \<open>
  The two \<open>setTimeout\<close> callbacks: the welcome message of \<open>toggleAgent\<close> (1 s) and the
  continuation of the task flow set by \<open>handleUserInput\<close> (3 s).
\<close>

datatype timer = Welcome lang | ContinueFlow view

text \<open>
  A recogniser made by \<open>initializeSpeechRecognition\<close>: its handlers are closures over
  the values of the render that made it (its language is the language of that view), and
  \<open>r_started\<close> tells whether \<open>start()\<close> has been called on it.
\<close>

record recognition =
  r_view :: view
  r_started :: bool

record agent =
  isActive :: bool
  isListening :: bool
  isSpeaking :: bool
  isProcessing :: bool
  keigoMode :: bool
  language :: lang
  conversation :: "ConversationTurn list"
  currentTask :: "TaskContext option"
  transcript :: jsstring
  agentThinking :: jsstring
  recognitionRef :: "recognition option"
  streamRef :: "resource option"
  audioContextRef :: "resource option"
  conversationTimeoutRef :: "nat option"
  timers :: "(nat \<times> timer) list"
  rebindTimers :: "view list"
  nextTimer :: nat
  inflight :: "pending list"
  synthCalls :: "synth_call list"
  dbCalls :: "db_call list"
  completions :: "TaskContext list"
  console :: "log_entry list"

text \<open>The state of the first render: the arguments of the \<open>useState\<close> and \<open>useRef\<close> calls.\<close>

definition initialState :: agent where
  "initialState =
     \<lparr>isActive = False, isListening = False, isSpeaking = False, isProcessing = False,
      keigoMode = True, language = Ja, conversation = [], currentTask = None,
      transcript = [], agentThinking = [], recognitionRef = None, streamRef = None,
      audioContextRef = None, conversationTimeoutRef = None, timers = [], rebindTimers = [],
      nextTimer = 0,
      inflight = [], synthCalls = [], dbCalls = [], completions = [], console = []\<rparr>"

definition render :: "agent \<Rightarrow> view" where
  "render s =
     \<lparr>v_isActive = isActive s, v_isSpeaking = isSpeaking s, v_isProcessing = isProcessing s,
      v_keigoMode = keigoMode s, v_language = language s, v_conversation = conversation s,
      v_currentTask = currentTask s\<rparr>"

section \<open>speakResponse\<close>

definition mkUtterance :: "env \<Rightarrow> jsstring \<Rightarrow> lang \<Rightarrow> utterance" where
  "mkUtterance e text lang =
     \<lparr>u_text = text,
      u_lang = (if lang = Ja then ascii ''ja-JP'' else ascii ''en-US''),
      u_rate = 9 / 10, u_pitch = 1, u_volume = 1,
      u_voice = find (\<lambda>v. startsWith (voice_lang v) (if lang = Ja then ascii ''ja'' else ascii ''en''))
                  (getVoices e)\<rparr>"

definition speakResponse :: "env \<Rightarrow> jsstring \<Rightarrow> lang \<Rightarrow> agent \<Rightarrow> agent" where
  "speakResponse e text lang s =
     (if trim text = [] then s
      else
        let s1 = s\<lparr>isSpeaking := True\<rparr> in
        if speechSynthesis e
        then s1\<lparr>synthCalls := synthCalls s1 @ [SynthSpeak (mkUtterance e text lang)]\<rparr>
        else
          let voice = (if lang = Ja then ascii ''nova'' else ascii ''alloy'');
              s2 = s1\<lparr>synthCalls := synthCalls s1 @ [GenerateSpeech text voice]\<rparr>
          in (case generateSpeech e text voice of
                None \<Rightarrow> s2\<lparr>console := console s2 @ [ErrorSpeakingResponse], isSpeaking := False\<rparr>
              | Some url \<Rightarrow>
                  if audioPlay e url
                  then s2\<lparr>synthCalls := synthCalls s2 @ [AudioPlay url]\<rparr>
                  else s2\<lparr>console := console s2 @ [ErrorSpeakingResponse],
                          isSpeaking := False\<rparr>))"

section \<open>updateTaskContext\<close>

definition newTask :: "nat \<Rightarrow> task_kind \<Rightarrow> lang \<Rightarrow> TaskContext" where
  "newTask now taskType lang =
     \<lparr>task_id = now, task_type = taskType, status = Active, steps = getTaskSteps taskType lang,
      currentStep = 0, customerInfo = None, progress = Finite 0\<rparr>"

text \<open>
  The update branch up to the call of \<open>setCurrentTask\<close>: the step is advanced and
  clamped, the progress recomputed, and the status set when the last index is reached.
\<close>

definition advanceTask :: "TaskContext \<Rightarrow> TaskContext" where
  "advanceTask t =
     (let n = int (length (steps t));
          c = min (currentStep t + 1) (n - 1);
          p = (if n = 0 then NonFinite else Finite ((of_int c / of_int n) * 100));
          u = t\<lparr>currentStep := c, progress := p\<rparr>
      in if c \<ge> n - 1 then u\<lparr>status := Completed\<rparr> else u)"

text \<open>
  \<open>currentTask\<close>, \<open>keigoMode\<close> and \<open>onTaskComplete\<close> are read from the closure. The
  calls of the task store and of \<open>blink.auth.me()\<close> are awaited after the state has been
  set and a rejection is caught and logged, so the model records the request only. The
  callback is taken not to throw.
\<close>

definition updateTaskContext ::
  "env \<Rightarrow> view \<Rightarrow> nat \<Rightarrow> jsstring \<Rightarrow> jsstring \<Rightarrow> lang \<Rightarrow> agent \<Rightarrow> agent" where
  "updateTaskContext e v now input response lang s =
     (case (determineTaskType input, v_currentTask v) of
        (Some taskType, None) \<Rightarrow>
          let t = newTask now taskType lang in
          s\<lparr>currentTask := Some t, dbCalls := dbCalls s @ [DbCreate t lang (v_keigoMode v)]\<rparr>
      | (None, None) \<Rightarrow> s
      | (_, Some currentTask') \<Rightarrow>
          let updatedTask = advanceTask currentTask';
              done = (currentStep updatedTask \<ge> int (length (steps updatedTask)) - 1)
          in s\<lparr>completions :=
                 (if done \<and> onTaskComplete e then completions s @ [updatedTask]
                  else completions s),
               currentTask := Some updatedTask,
               dbCalls := dbCalls s @
                 [DbUpdate (task_id updatedTask) (currentStep updatedTask)
                    (progress updatedTask) (status updatedTask)]\<rparr>)"

section \<open>continueTaskFlow and handleUserInput\<close>

fun nextStepPrompt :: "task_kind \<Rightarrow> lang \<Rightarrow> jsstring" where
  "nextStepPrompt Onboarding Ja =
     [0x6B21, 0x306E, 0x30B9, 0x30C6, 0x30C3, 0x30D7, 0x306B, 0x9032, 0x307F, 0x307E, 0x3057,
      0x3087, 0x3046, 0x3002, 0x4ED6, 0x306B, 0x5FC5, 0x8981, 0x306A, 0x60C5, 0x5831, 0x306F,
      0x3042, 0x308A, 0x307E, 0x3059, 0x304B, 0xFF1F]"
| "nextStepPrompt Onboarding En =
     ascii ''Let's proceed to the next step. Is there any other information needed?''"
| "nextStepPrompt Followup Ja =
     [0x30D5, 0x30A9, 0x30ED, 0x30FC, 0x30A2, 0x30C3, 0x30D7, 0x3092, 0x7D9A, 0x3051, 0x307E,
      0x3059, 0x3002, 0x4ED6, 0x306B, 0x3054, 0x8CEA, 0x554F, 0x306F, 0x3042, 0x308A, 0x307E,
      0x3059, 0x304B, 0xFF1F]"
| "nextStepPrompt Followup En = ascii ''Continuing follow-up. Do you have any other questions?''"
| "nextStepPrompt Logging Ja =
     [0x4F5C, 0x696D, 0x30ED, 0x30B0, 0x3092, 0x7D9A, 0x3051, 0x307E, 0x3059, 0x3002, 0x4ED6,
      0x306B, 0x8A18, 0x9332, 0x3059, 0x308B, 0x3053, 0x3068, 0x306F, 0x3042, 0x308A, 0x307E,
      0x3059, 0x304B, 0xFF1F]"
| "nextStepPrompt Logging En = ascii ''Continuing work log. Anything else to record?''"

definition continueTaskFlow :: "env \<Rightarrow> view \<Rightarrow> agent \<Rightarrow> agent" where
  "continueTaskFlow e v s =
     (case v_currentTask v of
        None \<Rightarrow> s
      | Some t \<Rightarrow>
          if status t \<noteq> Active then s
          else speakResponse e (nextStepPrompt (task_type t) (v_language v)) (v_language v) s)"

definition analyzing :: jsstring where
  "analyzing = [0x5206, 0x6790, 0x4E2D] @ ascii ''... / Analyzing...''"

fun errorMessage :: "lang \<Rightarrow> jsstring" where
  "errorMessage Ja =
     [0x3059, 0x307F, 0x307E, 0x305B, 0x3093, 0x3001, 0x51E6, 0x7406, 0x4E2D, 0x306B, 0x30A8,
      0x30E9, 0x30FC, 0x304C, 0x767A, 0x751F, 0x3057, 0x307E, 0x3057, 0x305F, 0x3002, 0x3082,
      0x3046, 0x4E00, 0x5EA6, 0x304A, 0x8A66, 0x3057, 0x304F, 0x3060, 0x3055, 0x3044, 0x3002]"
| "errorMessage En =
     ascii ''Sorry, there was an error processing your request. Please try again.''"

text \<open>
  \<open>handleUserInput\<close> is an async function. Its body up to the \<open>await\<close> of
  \<open>blink.ai.generateText\<close> is \<open>handleUserInput\<close>: the guard, the user turn, and the
  call, which joins \<open>inflight\<close>. \<open>processingTimeoutRef\<close> is never assigned, so the
  \<open>clearTimeout\<close> on it does nothing. \<open>Date.now()\<close> is read once per run of a handler
  and passed as \<open>now\<close>.
\<close>

definition handleUserInput :: "env \<Rightarrow> view \<Rightarrow> nat \<Rightarrow> jsstring \<Rightarrow> agent \<Rightarrow> agent" where
  "handleUserInput e v now input s =
     (if v_isProcessing v \<or> v_isSpeaking v then s
      else
        let userTurn =
              \<lparr>turn_id = now, turn_type = User, content = input, timestamp = now,
               turn_language = detectLanguage input, reasoning = None, actions = None,
               confidence = None\<rparr>
        in s\<lparr>isProcessing := True, transcript := [],
             conversation := conversation s @ [userTurn],
             agentThinking := analyzing,
             inflight := inflight s @
               [\<lparr>p_input = input, p_userTurn = userTurn, p_view = v, p_maxTokens = 300\<rparr>]\<rparr>)"

text \<open>
  The rest of the \<open>try\<close> block, run when the call resolves with \<open>aiResponse\<close>, followed
  by the \<open>finally\<close> block. \<open>updateTaskContext\<close>, \<open>currentTask\<close> and \<open>isActive\<close> are
  those of the closure that made the call. The inner awaits (task store, fallback speech)
  are taken to settle before another event is handled.
\<close>

definition handleUserInput_resolved ::
  "env \<Rightarrow> pending \<Rightarrow> nat \<Rightarrow> jsstring \<Rightarrow> agent \<Rightarrow> agent" where
  "handleUserInput_resolved e p now aiResponse s =
     (let v = p_view p;
          lang = turn_language (p_userTurn p);
          agentTurn =
            \<lparr>turn_id = now + 1, turn_type = Agent, content = aiResponse, timestamp = now,
             turn_language = lang,
             reasoning = Some (ascii ''AI analysis and task progression''),
             actions = None, confidence = Some (9 / 10)\<rparr>;
          s1 = s\<lparr>agentThinking := [], conversation := conversation s @ [agentTurn]\<rparr>;
          s2 = updateTaskContext e v now (p_input p) aiResponse lang s1;
          s3 = speakResponse e aiResponse lang s2;
          s4 = (case v_currentTask v of
                  None \<Rightarrow> s3
                | Some t \<Rightarrow>
                    if status t = Active
                    then s3\<lparr>conversationTimeoutRef := Some (nextTimer s3),
                            timers := timers s3 @ [(nextTimer s3, ContinueFlow v)],
                            nextTimer := nextTimer s3 + 1\<rparr>
                    else s3)
      in s4\<lparr>isProcessing := False\<rparr>)"

text \<open>The \<open>catch\<close> block, run when the call rejects, followed by the \<open>finally\<close> block.\<close>

definition handleUserInput_rejected :: "env \<Rightarrow> pending \<Rightarrow> agent \<Rightarrow> agent" where
  "handleUserInput_rejected e p s =
     (let lang = turn_language (p_userTurn p);
          s1 = s\<lparr>console := console s @ [ErrorProcessingInput]\<rparr>;
          s2 = speakResponse e (errorMessage lang) lang s1
      in s2\<lparr>isProcessing := False\<rparr>)"

section \<open>Microphone, recogniser and toggleAgent\<close>

text \<open>
  \<open>getUserMedia\<close> resolves with a stream or rejects with a \<open>DOMException\<close>:
  \<open>NotAllowedError\<close> when permission is denied, \<open>NotFoundError\<close> when there is no input
  device. The result type keeps a rejection of the function itself as \<open>Inl\<close>. The
  amplitude meter (\<open>audioLevel\<close>) is not modelled.
\<close>

definition initializeAudioVisualization ::
  "dom_exception + unit \<Rightarrow> agent \<Rightarrow> dom_exception + agent" where
  "initializeAudioVisualization getUserMedia s =
     (case getUserMedia of
        Inr stream \<Rightarrow> Inr (s\<lparr>streamRef := Some Open, audioContextRef := Some Open\<rparr>)
      | Inl error \<Rightarrow> Inr (s\<lparr>console := console s @ [ErrorAccessingMicrophone error]\<rparr>))"

definition initializeSpeechRecognition :: "env \<Rightarrow> view \<Rightarrow> agent \<Rightarrow> agent" where
  "initializeSpeechRecognition e v s =
     (if \<not> speechRecognition e
      then s\<lparr>console := console s @ [SpeechRecognitionNotSupported]\<rparr>
      else s\<lparr>recognitionRef := Some \<lparr>r_view = v, r_started = False\<rparr>\<rparr>)"

text \<open>
  \<open>recognition.onresult\<close>: the results from \<open>event.resultIndex\<close> on, each the transcript
  of its first alternative and its \<open>isFinal\<close> flag.
\<close>

definition recognition_onresult ::
  "env \<Rightarrow> view \<Rightarrow> nat \<Rightarrow> (jsstring \<times> bool) list \<Rightarrow> agent \<Rightarrow> agent" where
  "recognition_onresult e v now results s =
     (let finalTranscript = concat (map fst (filter snd results));
          interimTranscript = concat (map fst (filter (\<lambda>r. \<not> snd r) results));
          s1 = s\<lparr>transcript :=
                  (if interimTranscript \<noteq> [] then interimTranscript else finalTranscript)\<rparr>
      in if trim finalTranscript \<noteq> [] then handleUserInput e v now (trim finalTranscript) s1
         else s1)"

fun welcomeMessage :: "lang \<Rightarrow> jsstring" where
  "welcomeMessage Ja =
     ascii ''BRYTT AI'' @
     [0x30A8, 0x30FC, 0x30B8, 0x30A7, 0x30F3, 0x30C8, 0x304C, 0x8D77, 0x52D5, 0x3057, 0x307E,
      0x3057, 0x305F, 0x3002, 0x304A, 0x8A71, 0x3057, 0x304F, 0x3060, 0x3055, 0x3044, 0x3002]"
| "welcomeMessage En = ascii ''BRYTT AI Agent is now active. Please speak.''"

definition clearTimeout :: "nat option \<Rightarrow> (nat \<times> timer) list \<Rightarrow> (nat \<times> timer) list" where
  "clearTimeout ref ts =
     (case ref of None \<Rightarrow> ts | Some i \<Rightarrow> filter (\<lambda>t. fst t \<noteq> i) ts)"

definition toggleAgent ::
  "env \<Rightarrow> view \<Rightarrow> dom_exception + unit \<Rightarrow> agent \<Rightarrow> dom_exception + agent" where
  "toggleAgent e v getUserMedia s =
     (if \<not> v_isActive v
      then
        (case initializeAudioVisualization getUserMedia (s\<lparr>isActive := True\<rparr>) of
           Inl error \<Rightarrow> Inl error
         | Inr s1 \<Rightarrow>
             let s2 = initializeSpeechRecognition e v s1
             in Inr (s2\<lparr>timers := timers s2 @ [(nextTimer s2, Welcome (v_language v))],
                        nextTimer := nextTimer s2 + 1\<rparr>))
      else
        Inr (s\<lparr>isActive := False, isListening := False, isSpeaking := False,
               isProcessing := False,
               streamRef := map_option (\<lambda>r. Closed) (streamRef s),
               audioContextRef := map_option (\<lambda>r. Closed) (audioContextRef s),
               timers := clearTimeout (conversationTimeoutRef s) (timers s)\<rparr>))"

section \<open>The effect on the recogniser\<close>

text \<open>
  The last effect of the component depends on \<open>language\<close>, \<open>isActive\<close>, \<open>isSpeaking\<close>
  and \<open>initializeSpeechRecognition\<close>, which is made anew when \<open>isProcessing\<close> or
  \<open>handleUserInput\<close> changes, that is, when any value of the view changes. It runs after
  a render in which the view has changed: when there is a recogniser and the agent is
  active it stops the recogniser and sets a timer of 500 ms, whose callback is a closure of
  that render. These timers have one delay, so they fire in the order in which they were
  set: \<open>rebindTimers\<close> is a queue.
\<close>

definition recognitionEffect :: "recognition option \<Rightarrow> view \<Rightarrow> agent \<Rightarrow> agent" where
  "recognitionEffect ref v s =
     (if ref \<noteq> None \<and> v_isActive v then s\<lparr>rebindTimers := rebindTimers s @ [v]\<rparr> else s)"

text \<open>
  \<open>rerender s s'\<close>: the state has gone from \<open>s\<close> to \<open>s'\<close>; React renders and runs the
  effect when the view has changed.
\<close>

definition rerender :: "agent \<Rightarrow> agent \<Rightarrow> agent" where
  "rerender s s' =
     (if render s' \<noteq> render s then recognitionEffect (recognitionRef s') (render s') s'
      else s')"

text \<open>
  The callback of the timer: a recogniser is made from the closure of the render that set
  the timer, and \<open>start()\<close> is called on the recogniser of the ref when that render was
  active and not speaking.
\<close>

definition rebind :: "env \<Rightarrow> view \<Rightarrow> agent \<Rightarrow> agent" where
  "rebind e v s =
     (let s1 = initializeSpeechRecognition e v s
      in if v_isActive v \<and> \<not> v_isSpeaking v
         then s1\<lparr>recognitionRef := map_option (\<lambda>r. r\<lparr>r_started := True\<rparr>) (recognitionRef s1)\<rparr>
         else s1)"

section \<open>The component as a machine\<close>

text \<open>
  The events the component reacts to. \<open>OnResult\<close> is a result event of the recogniser
  of the ref, which has been started: its handler is the closure the recogniser was made
  with, not that of the latest render. \<open>Resolved i now text\<close> and \<open>Rejected i\<close> settle
  the call at position \<open>i\<close> of \<open>inflight\<close>: the remote service answers in any order.
  \<open>UtteranceEnd\<close> is \<open>onend\<close> or \<open>onerror\<close> of an utterance, or \<open>onended\<close> or
  \<open>onerror\<close> of the fallback audio. \<open>RebindTimer\<close> is the oldest timer of the effect.
  The buttons (\<open>Toggle\<close>, \<open>SetLanguage\<close>, \<open>SetKeigoMode\<close>) call the handlers of the
  latest render. After each event React renders. In \<open>toggleAgent\<close> the render with
  \<open>isActive\<close> set comes while \<open>getUserMedia\<close> is awaited, before the recogniser is
  made, so its effect sees the ref as it was. The renders between the awaits of one run of
  \<open>handleUserInput\<close> have \<open>isProcessing\<close> set, so that a recogniser made from them drops
  every transcript; they are not modelled, nor are the events of a recogniser that has
  been replaced.
\<close>

datatype event =
  Toggle "dom_exception + unit"
| OnResult nat "(jsstring \<times> bool) list"
| Resolved nat nat jsstring
| Rejected nat
| UtteranceEnd
| TimerFires nat
| RebindTimer
| RecognitionStart
| RecognitionEnd
| SetLanguage lang
| SetKeigoMode bool

definition fireTimer :: "env \<Rightarrow> timer \<Rightarrow> agent \<Rightarrow> agent" where
  "fireTimer e t s =
     (case t of
        Welcome lang \<Rightarrow> speakResponse e (welcomeMessage lang) lang s
      | ContinueFlow v \<Rightarrow>
          if v_isActive v \<and> \<not> v_isSpeaking v then continueTaskFlow e v s else s)"

definition dropAt :: "nat \<Rightarrow> 'a list \<Rightarrow> 'a list" where
  "dropAt i xs = take i xs @ drop (Suc i) xs"

fun step :: "env \<Rightarrow> event \<Rightarrow> agent \<Rightarrow> agent" where
  "step e (Toggle getUserMedia) s =
     (case toggleAgent e (render s) getUserMedia s of
        Inl error \<Rightarrow> s
      | Inr s' \<Rightarrow>
          if isActive s then rerender s s'
          else recognitionEffect (recognitionRef s) (render (s\<lparr>isActive := True\<rparr>)) s')"
| "step e (OnResult now results) s =
     (case recognitionRef s of
        None \<Rightarrow> s
      | Some r \<Rightarrow>
          if r_started r then rerender s (recognition_onresult e (r_view r) now results s)
          else s)"
| "step e (Resolved i now text) s =
     (if i < length (inflight s)
      then rerender s
             (handleUserInput_resolved e (inflight s ! i) now text
                (s\<lparr>inflight := dropAt i (inflight s)\<rparr>))
      else s)"
| "step e (Rejected i) s =
     (if i < length (inflight s)
      then rerender s
             (handleUserInput_rejected e (inflight s ! i)
                (s\<lparr>inflight := dropAt i (inflight s)\<rparr>))
      else s)"
| "step e UtteranceEnd s = rerender s (s\<lparr>isSpeaking := False\<rparr>)"
| "step e (TimerFires i) s =
     (case map_of (timers s) i of
        None \<Rightarrow> s
      | Some t \<Rightarrow>
          rerender s (fireTimer e t (s\<lparr>timers := filter (\<lambda>t. fst t \<noteq> i) (timers s)\<rparr>)))"
| "step e RebindTimer s =
     (case rebindTimers s of
        [] \<Rightarrow> s
      | v # vs \<Rightarrow> rerender s (rebind e v (s\<lparr>rebindTimers := vs\<rparr>)))"
| "step e RecognitionStart s = s\<lparr>isListening := True\<rparr>"
| "step e RecognitionEnd s = s\<lparr>isListening := False\<rparr>"
| "step e (SetLanguage l) s = rerender s (s\<lparr>language := l\<rparr>)"
| "step e (SetKeigoMode k) s = rerender s (s\<lparr>keigoMode := k\<rparr>)"

fun run :: "env \<Rightarrow> event list \<Rightarrow> agent \<Rightarrow> agent" where
  "run e [] s = s"
| "run e (ev # evs) s = run e evs (step e ev s)"

text \<open>
  The states of the specification, read off the flags of the component: \<open>idle\<close> when the
  agent is not active, \<open>dispatching\<close> while a turn is being processed, \<open>speaking\<close> while
  an utterance is out, \<open>listening\<close> otherwise.
\<close>

datatype phase = Idle | Listening | Dispatching | Speaking

definition phase :: "agent \<Rightarrow> phase" where
  "phase s =
     (if \<not> isActive s then Idle
      else if isProcessing s then Dispatching
      else if isSpeaking s then Speaking
      else Listening)"

section \<open>speakResponse of VoiceInterface.tsx\<close>

record voice_interface =
  vi_isSpeaking :: bool
  vi_synthCalls :: "synth_call list"

definition pickVoice :: "voice list \<Rightarrow> jsstring \<Rightarrow> voice option" where
  "pickVoice voices prefix =
     (case find (\<lambda>v. startsWith (voice_lang v) prefix \<and> includes_str (voice_name v) (ascii ''Google''))
             voices of
        Some v \<Rightarrow> Some v
      | None \<Rightarrow> find (\<lambda>v. startsWith (voice_lang v) prefix) voices)"

definition VoiceInterface_speakResponse ::
  "env \<Rightarrow> lang \<Rightarrow> jsstring \<Rightarrow> voice_interface \<Rightarrow> voice_interface" where
  "VoiceInterface_speakResponse e language' text s =
     (if \<not> speechSynthesis e then s
      else
        let s1 = s\<lparr>vi_synthCalls := vi_synthCalls s @ [SynthCancel]\<rparr>;
            s2 = s1\<lparr>vi_isSpeaking := True\<rparr>;
            utterance =
              \<lparr>u_text = text,
               u_lang = (if language' = Ja then ascii ''ja-JP'' else ascii ''en-US''),
               u_rate = 9 / 10, u_pitch = 1, u_volume = 8 / 10,
               u_voice = pickVoice (getVoices e) (if language' = Ja then ascii ''ja'' else ascii ''en'')\<rparr>
        in s2\<lparr>vi_synthCalls := vi_synthCalls s2 @ [SynthSpeak utterance]\<rparr>)"

text \<open>
  The utterance queue of the Web Speech API after a sequence of calls, when no utterance
  has finished in between: \<open>speak\<close> adds the utterance to the end of the queue and
  \<open>cancel\<close> removes all utterances from it. The first of the queue is the one being
  spoken; each utterance that is spoken fires its own \<open>end\<close> event.
\<close>

fun synthQueue :: "synth_call list \<Rightarrow> utterance list \<Rightarrow> utterance list" where
  "synthQueue [] q = q"
| "synthQueue (SynthCancel # cs) q = synthQueue cs []"
| "synthQueue (SynthSpeak u # cs) q = synthQueue cs (q @ [u])"
| "synthQueue (GenerateSpeech t v # cs) q = synthQueue cs q"
| "synthQueue (AudioPlay url # cs) q = synthQueue cs q"

text \<open>A browser with both speech interfaces, and a parent that supplies \<open>onTaskComplete\<close>.\<close>

definition browserEnv :: env where
  "browserEnv =
     \<lparr>onTaskComplete = True, speechSynthesis = True, speechRecognition = True,
      getVoices = [], generateSpeech = (\<lambda>t v. None), audioPlay = (\<lambda>u. False)\<rparr>"

section \<open>Calls and the quiet agent\<close>

text \<open>The call that \<open>handleUserInput\<close> makes for an input at a time from a closure.\<close>

definition pendingCall :: "nat \<Rightarrow> jsstring \<Rightarrow> view \<Rightarrow> pending" where
  "pendingCall now input v =
     \<lparr>p_input = input,
      p_userTurn =
        \<lparr>turn_id = now, turn_type = User, content = input, timestamp = now,
         turn_language = detectLanguage input, reasoning = None, actions = None,
         confidence = None\<rparr>,
      p_view = v, p_maxTokens = 300\<rparr>"

text \<open>
  The agent between two turns: active, not processing and not speaking, no timer of the
  effect pending, and the recogniser of the ref started and made from the latest render.
\<close>

definition ready :: "agent \<Rightarrow> bool" where
  "ready s =
     (isActive s \<and> \<not> isProcessing s \<and> \<not> isSpeaking s \<and>
      recognitionRef s = Some \<lparr>r_view = render s, r_started = True\<rparr> \<and> rebindTimers s = [])"

section \<open>Sample runs\<close>

text \<open>
  The agent is started; after 1 s the welcome message is spoken, and the timer that the
  effect has set then fires while it is spoken; the message ends, and the timer set then
  makes the recogniser from the render of the quiet agent and starts it.
\<close>

definition startSession :: "dom_exception + unit \<Rightarrow> event list" where
  "startSession getUserMedia =
     [Toggle getUserMedia, TimerFires 0, RebindTimer, UtteranceEnd, RebindTimer]"

text \<open>
  One completed turn: a final transcript; the response to it 100 ms later; the two timers
  that the effect has set after these renders, which fire while the response is spoken;
  the end of the utterance; and the timer set then, which makes the recogniser from the
  render of the quiet agent and starts it.
\<close>

definition turn :: "nat \<Rightarrow> jsstring \<Rightarrow> jsstring \<Rightarrow> event list" where
  "turn now input reply =
     [OnResult now [(input, True)], Resolved 0 (now + 100) reply, RebindTimer, RebindTimer,
      UtteranceEnd, RebindTimer]"

text \<open>
  A session of five turns, in which an onboarding task is made and taken to its last step,
  and a sixth turn whose transcript matches the onboarding keywords again.
\<close>

definition fiveTurns :: "event list" where
  "fiveTurns =
     startSession (Inr ()) @
     turn 1000 (ascii ''register new customer Tanaka'') (ascii ''Welcome'') @
     turn 2000 (ascii ''his name is Tanaka'') (ascii ''Thanks'') @
     turn 3000 (ascii ''passport'') (ascii ''Verified'') @
     turn 4000 (ascii ''the basic plan'') (ascii ''Selected'') @
     turn 5000 (ascii ''yes please'') (ascii ''Done'')"

definition sixthTurn :: "event list" where
  "sixthTurn = turn 6000 (ascii ''register new customer Sato'') (ascii ''Sure'')"

text \<open>The onboarding task made at time 1100, at a given step.\<close>

definition onboardingAt :: "int \<Rightarrow> rat \<Rightarrow> task_status \<Rightarrow> TaskContext" where
  "onboardingAt k p st =
     \<lparr>task_id = 1100, task_type = Onboarding, status = st, steps = getTaskSteps Onboarding En,
      currentStep = k, customerInfo = None, progress = Finite p\<rparr>"

text \<open>A started agent that has dispatched one transcript and waits for the response.\<close>

definition dispatchingState :: agent where
  "dispatchingState =
     run browserEnv
       (startSession (Inr ()) @
        [OnResult 1000 [(ascii ''register new customer Tanaka'', True)]])
       initialState"

text \<open>
  Overlapping turns, with no stop. An onboarding task is made in a first turn. Then two
  final transcripts arrive 10 ms apart on the same recogniser, before a timer of the effect
  fires: the closure of both handlers is the render before the first, in which
  \<open>isProcessing\<close> is not set, and both are dispatched. The first call is answered and its
  utterance ends; a third transcript is dispatched and answered; the second call is
  answered last.
\<close>

definition overlapStart :: "event list" where
  "overlapStart =
     startSession (Inr ()) @
     turn 1000 (ascii ''register new customer Tanaka'') (ascii ''Welcome'')"

definition overlapFirst :: "event list" where
  "overlapFirst =
     [OnResult 2000 [(ascii ''his name is Tanaka'', True)],
      OnResult 2010 [(ascii ''passport'', True)],
      Resolved 0 2100 (ascii ''Thanks''), RebindTimer, RebindTimer, RebindTimer,
      UtteranceEnd, RebindTimer]"

definition overlapThird :: "event list" where
  "overlapThird =
     [OnResult 3000 [(ascii ''the basic plan'', True)],
      Resolved 1 3100 (ascii ''Selected'')]"

definition overlapLate :: "event list" where
  "overlapLate = [Resolved 0 3500 (ascii ''Verified'')]"

section \<open>Facts about the handlers and the runs\<close>

lemma determine_register:
  "determineTaskType (ascii ''register new customer Tanaka'') = Some Onboarding"
  by (simp add: determineTaskType_def toLowerCase_def toLowerUnit_def ascii_def)



lemma detect_register: "detectLanguage (ascii ''register new customer Tanaka'') = En"
  by (simp add: detectLanguage_def japaneseClass_def ascii_def)

lemma updateTaskContext_currentTask:
  "currentTask (updateTaskContext e v now input r l s) =
     (case v_currentTask v of
        None \<Rightarrow> (case determineTaskType input of
                    None \<Rightarrow> currentTask s
                  | Some ty \<Rightarrow> Some (newTask now ty l))
      | Some t \<Rightarrow> Some (advanceTask t))"
  by (simp add: updateTaskContext_def Let_def split: option.splits)

lemma advanceTask_props:
  "task_id (advanceTask t) = task_id t"
  "steps (advanceTask t) = steps t"
  "task_type (advanceTask t) = task_type t"
  "currentStep (advanceTask t) = min (currentStep t + 1) (int (length (steps t)) - 1)"
  by (simp_all add: advanceTask_def Let_def)

lemma trim_ascii_inputs:
  "trim (ascii ''register new customer Tanaka'') = ascii ''register new customer Tanaka''"
  "trim (ascii ''his name is Tanaka'') = ascii ''his name is Tanaka''"
  "trim (ascii ''passport'') = ascii ''passport''"
  "trim (ascii ''the basic plan'') = ascii ''the basic plan''"
  "trim (ascii ''yes please'') = ascii ''yes please''"
  "trim (ascii ''register new customer Sato'') = ascii ''register new customer Sato''"
  "trim (ascii ''send the follow-up email'') = ascii ''send the follow-up email''"
  by (simp_all add: trim_def isWhiteSpace_def ascii_def)

lemma ascii_nonempty:
  "ascii ''register new customer Tanaka'' \<noteq> []"
  "ascii ''his name is Tanaka'' \<noteq> []"
  "ascii ''passport'' \<noteq> []"
  "ascii ''the basic plan'' \<noteq> []"
  "ascii ''yes please'' \<noteq> []"
  "ascii ''register new customer Sato'' \<noteq> []"
  "ascii ''send the follow-up email'' \<noteq> []"
  by (simp_all add: ascii_def)

lemma determine_sato:
  "determineTaskType (ascii ''register new customer Sato'') = Some Onboarding"
  by (simp add: determineTaskType_def toLowerCase_def toLowerUnit_def ascii_def)

lemma advance_onboarding:
  "newTask 1100 Onboarding En = onboardingAt 0 0 Active"
  "advanceTask (onboardingAt 0 0 Active) = onboardingAt 1 20 Active"
  "advanceTask (onboardingAt 1 20 Active) = onboardingAt 2 40 Active"
  "advanceTask (onboardingAt 2 40 Active) = onboardingAt 3 60 Active"
  "advanceTask (onboardingAt 3 60 Active) = onboardingAt 4 80 Completed"
  "advanceTask (onboardingAt 4 80 Completed) = onboardingAt 4 80 Completed"
  by (simp_all add: advanceTask_def newTask_def onboardingAt_def Let_def)

lemma onboardingAt_sel [simp]:
  "currentStep (onboardingAt k p st) = k"
  "steps (onboardingAt k p st) = getTaskSteps Onboarding En"
  "status (onboardingAt k p st) = st"
  "task_id (onboardingAt k p st) = 1100"
  by (simp_all add: onboardingAt_def)

lemma toggleAgent_stop:
  "v_isActive v \<Longrightarrow>
   toggleAgent e v m s =
     Inr (s\<lparr>isActive := False, isListening := False, isSpeaking := False, isProcessing := False,
            streamRef := map_option (\<lambda>r. Closed) (streamRef s),
            audioContextRef := map_option (\<lambda>r. Closed) (audioContextRef s),
            timers := clearTimeout (conversationTimeoutRef s) (timers s)\<rparr>)"
  by (simp add: toggleAgent_def)




lemma japaneseRegex_test_iff:
  "japaneseRegex_test inp \<longleftrightarrow> (\<exists>c\<in>set inp. japaneseClass c)"
  by (induction inp) auto

lemma speakResponse_frame [simp]:
  "currentTask (speakResponse e t l s) = currentTask s"
  "conversation (speakResponse e t l s) = conversation s"
  "inflight (speakResponse e t l s) = inflight s"
  "isProcessing (speakResponse e t l s) = isProcessing s"
  "isActive (speakResponse e t l s) = isActive s"
  "completions (speakResponse e t l s) = completions s"
  "dbCalls (speakResponse e t l s) = dbCalls s"
  "timers (speakResponse e t l s) = timers s"
  "nextTimer (speakResponse e t l s) = nextTimer s"
  "conversationTimeoutRef (speakResponse e t l s) = conversationTimeoutRef s"
  "keigoMode (speakResponse e t l s) = keigoMode s"
  "language (speakResponse e t l s) = language s"
  "recognitionRef (speakResponse e t l s) = recognitionRef s"
  "rebindTimers (speakResponse e t l s) = rebindTimers s"
  by (simp_all add: speakResponse_def Let_def split: option.splits)

lemma speakResponse_speaking:
  "speechSynthesis e \<Longrightarrow> trim t \<noteq> [] \<Longrightarrow> isSpeaking (speakResponse e t l s)"
  by (simp add: speakResponse_def Let_def)

lemma updateTaskContext_frame [simp]:
  "conversation (updateTaskContext e v now input r l s) = conversation s"
  "inflight (updateTaskContext e v now input r l s) = inflight s"
  "isProcessing (updateTaskContext e v now input r l s) = isProcessing s"
  "isSpeaking (updateTaskContext e v now input r l s) = isSpeaking s"
  "isActive (updateTaskContext e v now input r l s) = isActive s"
  "timers (updateTaskContext e v now input r l s) = timers s"
  "nextTimer (updateTaskContext e v now input r l s) = nextTimer s"
  "keigoMode (updateTaskContext e v now input r l s) = keigoMode s"
  "language (updateTaskContext e v now input r l s) = language s"
  "synthCalls (updateTaskContext e v now input r l s) = synthCalls s"
  "recognitionRef (updateTaskContext e v now input r l s) = recognitionRef s"
  "rebindTimers (updateTaskContext e v now input r l s) = rebindTimers s"
  by (simp_all add: updateTaskContext_def Let_def split: option.splits)

lemma resolved_fields:
  "currentTask (handleUserInput_resolved e p now r s) =
     currentTask (updateTaskContext e (p_view p) now (p_input p) r (turn_language (p_userTurn p)) s)"
  "isProcessing (handleUserInput_resolved e p now r s) = False"
  "inflight (handleUserInput_resolved e p now r s) = inflight s"
  "isActive (handleUserInput_resolved e p now r s) = isActive s"
  "keigoMode (handleUserInput_resolved e p now r s) = keigoMode s"
  "language (handleUserInput_resolved e p now r s) = language s"
  "recognitionRef (handleUserInput_resolved e p now r s) = recognitionRef s"
  "rebindTimers (handleUserInput_resolved e p now r s) = rebindTimers s"
  "length (conversation (handleUserInput_resolved e p now r s)) = Suc (length (conversation s))"
  by (simp_all add: handleUserInput_resolved_def Let_def updateTaskContext_currentTask
      split: option.splits)

lemma resolved_task:
  "currentTask (handleUserInput_resolved e p now r s) =
     (case v_currentTask (p_view p) of
        None \<Rightarrow>
          (case determineTaskType (p_input p) of
             None \<Rightarrow> currentTask s
           | Some ty \<Rightarrow> Some (newTask now ty (turn_language (p_userTurn p))))
      | Some t \<Rightarrow> Some (advanceTask t))"
  by (simp add: resolved_fields updateTaskContext_currentTask)

lemma rejected_fields [simp]:
  "currentTask (handleUserInput_rejected e p s) = currentTask s"
  "conversation (handleUserInput_rejected e p s) = conversation s"
  "inflight (handleUserInput_rejected e p s) = inflight s"
  "isProcessing (handleUserInput_rejected e p s) = False"
  "isActive (handleUserInput_rejected e p s) = isActive s"
  "completions (handleUserInput_rejected e p s) = completions s"
  "timers (handleUserInput_rejected e p s) = timers s"
  "dbCalls (handleUserInput_rejected e p s) = dbCalls s"
  "recognitionRef (handleUserInput_rejected e p s) = recognitionRef s"
  "rebindTimers (handleUserInput_rejected e p s) = rebindTimers s"
  by (simp_all add: handleUserInput_rejected_def Let_def)

lemma resolved_completions:
  "completions (handleUserInput_resolved e p now r s) =
     (case v_currentTask (p_view p) of
        None \<Rightarrow> completions s
      | Some c \<Rightarrow>
          if currentStep (advanceTask c) \<ge> int (length (steps (advanceTask c))) - 1 \<and>
             onTaskComplete e
          then completions s @ [advanceTask c] else completions s)"
  by (simp add: handleUserInput_resolved_def updateTaskContext_def Let_def split: option.splits)

lemma resolved_conversation:
  "conversation (handleUserInput_resolved e p now r s) =
     conversation s @
       [\<lparr>turn_id = now + 1, turn_type = Agent, content = r, timestamp = now,
         turn_language = turn_language (p_userTurn p),
         reasoning = Some (ascii ''AI analysis and task progression''),
         actions = None, confidence = Some (9 / 10)\<rparr>]"
  by (simp add: handleUserInput_resolved_def Let_def split: option.splits)

lemma rerender_frame [simp]:
  "currentTask (rerender s s') = currentTask s'"
  "conversation (rerender s s') = conversation s'"
  "inflight (rerender s s') = inflight s'"
  "isProcessing (rerender s s') = isProcessing s'"
  "isSpeaking (rerender s s') = isSpeaking s'"
  "isActive (rerender s s') = isActive s'"
  "completions (rerender s s') = completions s'"
  "synthCalls (rerender s s') = synthCalls s'"
  "timers (rerender s s') = timers s'"
  "recognitionRef (rerender s s') = recognitionRef s'"
  "keigoMode (rerender s s') = keigoMode s'"
  "language (rerender s s') = language s'"
  "render (rerender s s') = render s'"
  by (simp_all add: rerender_def recognitionEffect_def render_def)

lemma rerender_timers:
  "rebindTimers (rerender s s') =
     (if render s' \<noteq> render s \<and> recognitionRef s' \<noteq> None \<and> isActive s'
      then rebindTimers s' @ [render s'] else rebindTimers s')"
  by (simp add: rerender_def recognitionEffect_def render_def)

lemma rerender_same: "render s' = render s \<Longrightarrow> rerender s s' = s'"
  by (simp add: rerender_def)

lemma rerender_inactive: "\<not> isActive s' \<Longrightarrow> rerender s s' = s'"
  by (simp add: rerender_def recognitionEffect_def render_def)

lemma render_conversation: "length (conversation s') \<noteq> length (conversation s) \<Longrightarrow> render s' \<noteq> render s"
  by (auto simp: render_def)

lemma render_isSpeaking: "isSpeaking s' \<noteq> isSpeaking s \<Longrightarrow> render s' \<noteq> render s"
  by (auto simp: render_def)

lemma pendingCall_sel [simp]:
  "p_input (pendingCall now input v) = input"
  "p_view (pendingCall now input v) = v"
  "turn_language (p_userTurn (pendingCall now input v)) = detectLanguage input"
  by (simp_all add: pendingCall_def)

lemma handleUserInput_accept:
  "\<not> v_isProcessing v \<Longrightarrow> \<not> v_isSpeaking v \<Longrightarrow>
   handleUserInput e v now input s =
     s\<lparr>isProcessing := True, transcript := [],
       conversation := conversation s @ [p_userTurn (pendingCall now input v)],
       agentThinking := analyzing,
       inflight := inflight s @ [pendingCall now input v]\<rparr>"
  by (simp add: handleUserInput_def pendingCall_def Let_def)

lemma step_onresult:
  assumes "recognitionRef s = Some r" "r_started r" "\<not> v_isProcessing (r_view r)"
    "\<not> v_isSpeaking (r_view r)" "isActive s" "trim t \<noteq> []"
  shows "isActive (step e (OnResult now [(t, True)]) s)"
    and "isProcessing (step e (OnResult now [(t, True)]) s)"
    and "isSpeaking (step e (OnResult now [(t, True)]) s) = isSpeaking s"
    and "recognitionRef (step e (OnResult now [(t, True)]) s) = Some r"
    and "rebindTimers (step e (OnResult now [(t, True)]) s) =
           rebindTimers s @ [render (step e (OnResult now [(t, True)]) s)]"
    and "inflight (step e (OnResult now [(t, True)]) s) =
           inflight s @ [pendingCall now (trim t) (r_view r)]"
    and "currentTask (step e (OnResult now [(t, True)]) s) = currentTask s"
    and "completions (step e (OnResult now [(t, True)]) s) = completions s"
    and "length (conversation (step e (OnResult now [(t, True)]) s)) =
           Suc (length (conversation s))"
proof -
  define h where "h = recognition_onresult e (r_view r) now [(t, True)] s"
  have h: "h = s\<lparr>transcript := [], isProcessing := True,
       conversation := conversation s @ [p_userTurn (pendingCall now (trim t) (r_view r))],
       agentThinking := analyzing,
       inflight := inflight s @ [pendingCall now (trim t) (r_view r)]\<rparr>"
    using assms(3,4,6)
    by (simp add: h_def recognition_onresult_def handleUserInput_accept Let_def)
  have st: "step e (OnResult now [(t, True)]) s = rerender s h"
    using assms(1,2) by (simp add: h_def)
  have ch: "render h \<noteq> render s"
    by (rule render_conversation) (simp add: h)
  have hf: "recognitionRef h = Some r" "isActive h" "rebindTimers h = rebindTimers s"
    using assms(1,5) by (simp_all add: h)
  show "isActive (step e (OnResult now [(t, True)]) s)"
    "isProcessing (step e (OnResult now [(t, True)]) s)"
    "isSpeaking (step e (OnResult now [(t, True)]) s) = isSpeaking s"
    "recognitionRef (step e (OnResult now [(t, True)]) s) = Some r"
    "inflight (step e (OnResult now [(t, True)]) s) =
           inflight s @ [pendingCall now (trim t) (r_view r)]"
    "currentTask (step e (OnResult now [(t, True)]) s) = currentTask s"
    "completions (step e (OnResult now [(t, True)]) s) = completions s"
    "length (conversation (step e (OnResult now [(t, True)]) s)) =
           Suc (length (conversation s))"
    unfolding st using assms(1,5) by (simp_all add: h)
  show "rebindTimers (step e (OnResult now [(t, True)]) s) =
           rebindTimers s @ [render (step e (OnResult now [(t, True)]) s)]"
    unfolding st using ch hf by (simp add: rerender_timers)
qed

lemma step_onresult_drop:
  assumes "recognitionRef s = Some r" "r_started r"
    "v_isProcessing (r_view r) \<or> v_isSpeaking (r_view r)"
  shows "step e (OnResult now [(t, True)]) s = s\<lparr>transcript := t\<rparr>"
proof -
  have "recognition_onresult e (r_view r) now [(t, True)] s = s\<lparr>transcript := t\<rparr>"
    using assms(3) by (simp add: recognition_onresult_def handleUserInput_def Let_def)
  moreover have "render (s\<lparr>transcript := t\<rparr>) = render s" by (simp add: render_def)
  ultimately show ?thesis using assms(1,2) by (simp add: rerender_same)
qed

lemma step_resolved:
  assumes "i < length (inflight s)" "isActive s" "recognitionRef s \<noteq> None"
  shows "isActive (step e (Resolved i now r) s)"
    and "\<not> isProcessing (step e (Resolved i now r) s)"
    and "recognitionRef (step e (Resolved i now r) s) = recognitionRef s"
    and "rebindTimers (step e (Resolved i now r) s) =
           rebindTimers s @ [render (step e (Resolved i now r) s)]"
    and "inflight (step e (Resolved i now r) s) = dropAt i (inflight s)"
    and "currentTask (step e (Resolved i now r) s) =
       (case v_currentTask (p_view (inflight s ! i)) of
          None \<Rightarrow>
            (case determineTaskType (p_input (inflight s ! i)) of
               None \<Rightarrow> currentTask s
             | Some ty \<Rightarrow> Some (newTask now ty (turn_language (p_userTurn (inflight s ! i)))))
        | Some t \<Rightarrow> Some (advanceTask t))"
    and "completions (step e (Resolved i now r) s) =
       (case v_currentTask (p_view (inflight s ! i)) of
          None \<Rightarrow> completions s
        | Some c \<Rightarrow>
            if currentStep (advanceTask c) \<ge> int (length (steps (advanceTask c))) - 1 \<and>
               onTaskComplete e
            then completions s @ [advanceTask c] else completions s)"
    and "length (conversation (step e (Resolved i now r) s)) = Suc (length (conversation s))"
proof -
  define h where
    "h = handleUserInput_resolved e (inflight s ! i) now r (s\<lparr>inflight := dropAt i (inflight s)\<rparr>)"
  have st: "step e (Resolved i now r) s = rerender s h"
    using assms(1) by (simp add: h_def)
  have ch: "render h \<noteq> render s"
    by (rule render_conversation) (simp add: h_def resolved_fields)
  have hf: "recognitionRef h \<noteq> None" "isActive h" "rebindTimers h = rebindTimers s"
    using assms(2,3) by (simp_all add: h_def resolved_fields)
  show "isActive (step e (Resolved i now r) s)"
    "\<not> isProcessing (step e (Resolved i now r) s)"
    "recognitionRef (step e (Resolved i now r) s) = recognitionRef s"
    "inflight (step e (Resolved i now r) s) = dropAt i (inflight s)"
    "length (conversation (step e (Resolved i now r) s)) = Suc (length (conversation s))"
    unfolding st using assms(2) by (simp_all add: h_def resolved_fields)
  show "currentTask (step e (Resolved i now r) s) =
       (case v_currentTask (p_view (inflight s ! i)) of
          None \<Rightarrow>
            (case determineTaskType (p_input (inflight s ! i)) of
               None \<Rightarrow> currentTask s
             | Some ty \<Rightarrow> Some (newTask now ty (turn_language (p_userTurn (inflight s ! i)))))
        | Some t \<Rightarrow> Some (advanceTask t))"
    unfolding st by (simp add: h_def resolved_task split: option.splits)
  show "completions (step e (Resolved i now r) s) =
       (case v_currentTask (p_view (inflight s ! i)) of
          None \<Rightarrow> completions s
        | Some c \<Rightarrow>
            if currentStep (advanceTask c) \<ge> int (length (steps (advanceTask c))) - 1 \<and>
               onTaskComplete e
            then completions s @ [advanceTask c] else completions s)"
    unfolding st by (simp add: h_def resolved_completions split: option.splits)
  show "rebindTimers (step e (Resolved i now r) s) =
           rebindTimers s @ [render (step e (Resolved i now r) s)]"
    unfolding st using ch hf by (simp add: rerender_timers)
qed

lemma render_rebindTimers [simp]: "render (s\<lparr>rebindTimers := x\<rparr>) = render s"
  by (simp add: render_def)

lemma rebind_frame [simp]:
  "render (rebind e v s) = render s"
  "inflight (rebind e v s) = inflight s"
  "currentTask (rebind e v s) = currentTask s"
  "completions (rebind e v s) = completions s"
  "conversation (rebind e v s) = conversation s"
  "isActive (rebind e v s) = isActive s"
  "isProcessing (rebind e v s) = isProcessing s"
  "isSpeaking (rebind e v s) = isSpeaking s"
  "rebindTimers (rebind e v s) = rebindTimers s"
  "synthCalls (rebind e v s) = synthCalls s"
  by (simp_all add: rebind_def initializeSpeechRecognition_def render_def Let_def)

lemma rebind_ref:
  "speechRecognition e \<Longrightarrow>
   recognitionRef (rebind e v s) =
     Some \<lparr>r_view = v, r_started = (v_isActive v \<and> \<not> v_isSpeaking v)\<rparr>"
  by (simp add: rebind_def initializeSpeechRecognition_def Let_def)

lemma step_rebind:
  "rebindTimers s = v # vs \<Longrightarrow>
   step e RebindTimer s = rebind e v (s\<lparr>rebindTimers := vs\<rparr>)"
  by (simp add: rerender_same)

lemma settle:
  assumes "speechRecognition e"
  shows "rebindTimers s \<noteq> [] \<Longrightarrow> length (rebindTimers s) \<le> n \<Longrightarrow>
     rebindTimers (run e (replicate n RebindTimer) s) = [] \<and>
     recognitionRef (run e (replicate n RebindTimer) s) =
       Some \<lparr>r_view = last (rebindTimers s),
             r_started = (v_isActive (last (rebindTimers s)) \<and>
                          \<not> v_isSpeaking (last (rebindTimers s)))\<rparr> \<and>
     render (run e (replicate n RebindTimer) s) = render s \<and>
     inflight (run e (replicate n RebindTimer) s) = inflight s \<and>
     currentTask (run e (replicate n RebindTimer) s) = currentTask s \<and>
     completions (run e (replicate n RebindTimer) s) = completions s \<and>
     conversation (run e (replicate n RebindTimer) s) = conversation s \<and>
     isActive (run e (replicate n RebindTimer) s) = isActive s \<and>
     isProcessing (run e (replicate n RebindTimer) s) = isProcessing s \<and>
     isSpeaking (run e (replicate n RebindTimer) s) = isSpeaking s"
proof (induction n arbitrary: s)
  case 0
  then show ?case by simp
next
  case (Suc n)
  then obtain v vs where q: "rebindTimers s = v # vs" by (cases "rebindTimers s") auto
  define s1 where "s1 = rebind e v (s\<lparr>rebindTimers := vs\<rparr>)"
  have r: "run e (replicate (Suc n) RebindTimer) s = run e (replicate n RebindTimer) s1"
    by (simp only: replicate_Suc run.simps step_rebind [OF q] s1_def)
  have s1: "rebindTimers s1 = vs" "render s1 = render s" "inflight s1 = inflight s"
    "currentTask s1 = currentTask s" "completions s1 = completions s"
    "conversation s1 = conversation s" "isActive s1 = isActive s"
    "isProcessing s1 = isProcessing s" "isSpeaking s1 = isSpeaking s"
    "recognitionRef s1 = Some \<lparr>r_view = v, r_started = (v_isActive v \<and> \<not> v_isSpeaking v)\<rparr>"
    by (simp_all add: s1_def rebind_ref [OF assms])
  show ?case
  proof (cases vs)
    case Nil
    have "run e (replicate n RebindTimer) s1 = s1"
      using s1(1) Nil by (induction n) simp_all
    then show ?thesis unfolding r using s1 q Nil by simp
  next
    case (Cons w ws)
    have "rebindTimers s1 \<noteq> []" "length (rebindTimers s1) \<le> n"
      using s1(1) Cons Suc.prems q by simp_all
    from Suc.IH [OF this] show ?thesis unfolding r using s1 q Cons by simp
  qed
qed

lemma rebind3: "[RebindTimer, RebindTimer, RebindTimer] = replicate 3 RebindTimer"
  by (simp add: numeral_3_eq_3)

lemma rebind2: "[RebindTimer, RebindTimer] = replicate 2 RebindTimer"
  by (simp add: numeral_2_eq_2)

lemma rebind1: "[RebindTimer] = replicate 1 RebindTimer"
  by simp

lemma run_append: "run e (xs @ ys) s = run e ys (run e xs s)"
  by (induction xs arbitrary: s) simp_all

lemma ready_view:
  "ready s \<Longrightarrow> \<not> v_isProcessing (render s) \<and> \<not> v_isSpeaking (render s)"
  by (simp add: ready_def render_def)

lemma settled_ref:
  assumes "speechRecognition e" "rebindTimers c \<noteq> []" "last (rebindTimers c) = render c"
    "length (rebindTimers c) \<le> n" "isActive c"
  shows "rebindTimers (run e (replicate n RebindTimer) c) = []"
    and "recognitionRef (run e (replicate n RebindTimer) c) =
       Some \<lparr>r_view = render (run e (replicate n RebindTimer) c),
             r_started = (\<not> isSpeaking (run e (replicate n RebindTimer) c))\<rparr>"
    and "isActive (run e (replicate n RebindTimer) c)"
    and "isProcessing (run e (replicate n RebindTimer) c) = isProcessing c"
    and "inflight (run e (replicate n RebindTimer) c) = inflight c"
    and "currentTask (run e (replicate n RebindTimer) c) = currentTask c"
    and "completions (run e (replicate n RebindTimer) c) = completions c"
    and "conversation (run e (replicate n RebindTimer) c) = conversation c"
proof -
  note f = settle [OF assms(1,2,4)]
  have v: "v_isActive (render c)" "v_isSpeaking (render c) = isSpeaking c"
    using assms(5) by (simp_all add: render_def)
  show "rebindTimers (run e (replicate n RebindTimer) c) = []"
    "isActive (run e (replicate n RebindTimer) c)"
    "isProcessing (run e (replicate n RebindTimer) c) = isProcessing c"
    "inflight (run e (replicate n RebindTimer) c) = inflight c"
    "currentTask (run e (replicate n RebindTimer) c) = currentTask c"
    "completions (run e (replicate n RebindTimer) c) = completions c"
    "conversation (run e (replicate n RebindTimer) c) = conversation c"
    using f assms(5) by simp_all
  show "recognitionRef (run e (replicate n RebindTimer) c) =
       Some \<lparr>r_view = render (run e (replicate n RebindTimer) c),
             r_started = (\<not> isSpeaking (run e (replicate n RebindTimer) c))\<rparr>"
    using f assms(3) v by simp
qed

lemma utterance_end_ready:
  assumes "speechRecognition e" "rebindTimers s = []" "isActive s" "\<not> isProcessing s"
    "recognitionRef s = Some \<lparr>r_view = render s, r_started = (\<not> isSpeaking s)\<rparr>"
  shows "ready (run e [UtteranceEnd, RebindTimer] s)"
    and "inflight (run e [UtteranceEnd, RebindTimer] s) = inflight s"
    and "currentTask (run e [UtteranceEnd, RebindTimer] s) = currentTask s"
    and "completions (run e [UtteranceEnd, RebindTimer] s) = completions s"
    and "conversation (run e [UtteranceEnd, RebindTimer] s) = conversation s"
proof -
  have "ready (run e [UtteranceEnd, RebindTimer] s) \<and>
      inflight (run e [UtteranceEnd, RebindTimer] s) = inflight s \<and>
      currentTask (run e [UtteranceEnd, RebindTimer] s) = currentTask s \<and>
      completions (run e [UtteranceEnd, RebindTimer] s) = completions s \<and>
      conversation (run e [UtteranceEnd, RebindTimer] s) = conversation s"
  proof (cases "isSpeaking s")
    case True
    define d where "d = step e UtteranceEnd s"
    have ch: "render (s\<lparr>isSpeaking := False\<rparr>) \<noteq> render s"
      by (rule render_isSpeaking) (simp add: True)
    have d: "rebindTimers d = [render d]" "isActive d" "\<not> isSpeaking d" "\<not> isProcessing d"
      "inflight d = inflight s" "currentTask d = currentTask s" "completions d = completions s"
      "conversation d = conversation s"
      using ch assms(2,3,4,5) by (simp_all add: d_def rerender_timers)
    have v: "v_isActive (render d)" "\<not> v_isSpeaking (render d)"
      using d(2,3) by (simp_all add: render_def)
    have r: "run e [UtteranceEnd, RebindTimer] s = rebind e (render d) (d\<lparr>rebindTimers := []\<rparr>)"
      using step_rebind [OF d(1), of e] by (simp only: run.simps d_def)
    show ?thesis
      unfolding r ready_def using d v by (simp add: rebind_ref [OF assms(1)])
  next
    case False
    have "s\<lparr>isSpeaking := False\<rparr> = s" using False by (cases s) simp
    then have "step e UtteranceEnd s = s" by (simp add: rerender_same)
    then have r: "run e [UtteranceEnd, RebindTimer] s = s"
      using assms(2) by (simp del: step.simps) simp
    show ?thesis unfolding r ready_def using assms False by simp
  qed
  then show "ready (run e [UtteranceEnd, RebindTimer] s)"
    and "inflight (run e [UtteranceEnd, RebindTimer] s) = inflight s"
    and "currentTask (run e [UtteranceEnd, RebindTimer] s) = currentTask s"
    and "completions (run e [UtteranceEnd, RebindTimer] s) = completions s"
    and "conversation (run e [UtteranceEnd, RebindTimer] s) = conversation s"
    by simp_all
qed

lemma turn_ready:
  assumes "ready s" "inflight s = []" "trim t \<noteq> []" "speechRecognition e"
  shows "ready (run e (turn now t r) s)"
    and "inflight (run e (turn now t r) s) = []"
    and "currentTask (run e (turn now t r) s) =
       (case currentTask s of
          None \<Rightarrow> (case determineTaskType (trim t) of
                      None \<Rightarrow> None
                    | Some ty \<Rightarrow> Some (newTask (now + 100) ty (detectLanguage (trim t))))
        | Some c \<Rightarrow> Some (advanceTask c))"
    and "completions (run e (turn now t r) s) =
       (case currentTask s of
          None \<Rightarrow> completions s
        | Some c \<Rightarrow>
            if currentStep (advanceTask c) \<ge> int (length (steps (advanceTask c))) - 1 \<and>
               onTaskComplete e
            then completions s @ [advanceTask c] else completions s)"
proof -
  define rc where "rc = \<lparr>r_view = render s, r_started = True\<rparr>"
  define b where "b = step e (OnResult now [(t, True)]) s"
  define c where "c = step e (Resolved 0 (now + 100) r) b"
  define f where "f = run e (replicate 2 RebindTimer) c"
  define k where "k = run e [UtteranceEnd, RebindTimer] f"
  have s: "recognitionRef s = Some rc" "r_started rc" "\<not> v_isProcessing (r_view rc)"
    "\<not> v_isSpeaking (r_view rc)" "isActive s" "rebindTimers s = []"
    using assms(1) ready_view [OF assms(1)] by (simp_all add: ready_def rc_def)
  note ob = step_onresult [OF s(1-5) assms(3), of e now, folded b_def]
  have b: "inflight b = [pendingCall now (trim t) (render s)]" "rebindTimers b = [render b]"
    "recognitionRef b \<noteq> None" "0 < length (inflight b)"
    using ob by (simp_all add: assms(2) s(6) rc_def)
  note oc = step_resolved [OF b(4) ob(1) b(3), of e "now + 100" r, folded c_def]
  have c: "rebindTimers c \<noteq> []" "last (rebindTimers c) = render c" "length (rebindTimers c) = 2"
    "recognitionRef c \<noteq> None" "inflight c = []"
    using oc b by (simp_all add: dropAt_def)
  have c2: "length (rebindTimers c) \<le> 2" using c(3) by simp
  note fs = settled_ref [OF assms(4) c(1,2) c2 oc(1), folded f_def]
  have fp: "\<not> isProcessing f" using fs(4) oc(2) by simp
  note ks = utterance_end_ready [OF assms(4) fs(1,3) fp fs(2), folded k_def]
  have run: "run e (turn now t r) s = k"
    unfolding turn_def k_def f_def c_def b_def rebind2 [symmetric]
    using run_append [of e "[OnResult now [(t, True)], Resolved 0 (now + 100) r,
        RebindTimer, RebindTimer]" "[UtteranceEnd, RebindTimer]" s]
    by simp
  show "ready (run e (turn now t r) s)" "inflight (run e (turn now t r) s) = []"
    unfolding run using ks fs c by simp_all
  have tk: "currentTask k = currentTask c" "completions k = completions c"
    using ks fs by simp_all
  show "currentTask (run e (turn now t r) s) =
       (case currentTask s of
          None \<Rightarrow> (case determineTaskType (trim t) of
                      None \<Rightarrow> None
                    | Some ty \<Rightarrow> Some (newTask (now + 100) ty (detectLanguage (trim t))))
        | Some c \<Rightarrow> Some (advanceTask c))"
    unfolding run tk oc(6) by (simp add: b ob render_def split: option.splits)
  show "completions (run e (turn now t r) s) =
       (case currentTask s of
          None \<Rightarrow> completions s
        | Some c \<Rightarrow>
            if currentStep (advanceTask c) \<ge> int (length (steps (advanceTask c))) - 1 \<and>
               onTaskComplete e
            then completions s @ [advanceTask c] else completions s)"
    unfolding run tk oc(7) by (simp add: b ob render_def split: option.splits)
qed

lemma welcomeMessage_nonblank: "trim (welcomeMessage l) \<noteq> []"
  by (cases l) (simp_all add: trim_def isWhiteSpace_def ascii_def)

lemma step_toggle_start:
  assumes "\<not> isActive s" "recognitionRef s = None" "speechRecognition e"
  shows "isActive (step e (Toggle m) s)"
    and "isProcessing (step e (Toggle m) s) = isProcessing s"
    and "isSpeaking (step e (Toggle m) s) = isSpeaking s"
    and "recognitionRef (step e (Toggle m) s) = Some \<lparr>r_view = render s, r_started = False\<rparr>"
    and "rebindTimers (step e (Toggle m) s) = rebindTimers s"
    and "timers (step e (Toggle m) s) = timers s @ [(nextTimer s, Welcome (language s))]"
    and "inflight (step e (Toggle m) s) = inflight s"
    and "currentTask (step e (Toggle m) s) = currentTask s"
    and "completions (step e (Toggle m) s) = completions s"
    and "conversation (step e (Toggle m) s) = conversation s"
  using assms
  by (auto simp: toggleAgent_def initializeAudioVisualization_def
      initializeSpeechRecognition_def recognitionEffect_def render_def Let_def
      split: sum.splits)

lemma start_ready:
  assumes "speechRecognition e" "speechSynthesis e"
    and "\<not> isActive s" "recognitionRef s = None" "timers s = []" "nextTimer s = 0"
    "rebindTimers s = []" "\<not> isProcessing s" "\<not> isSpeaking s"
  shows "ready (run e (startSession m) s)"
    and "inflight (run e (startSession m) s) = inflight s"
    and "currentTask (run e (startSession m) s) = currentTask s"
    and "completions (run e (startSession m) s) = completions s"
    and "conversation (run e (startSession m) s) = conversation s"
proof -
  define a where "a = step e (Toggle m) s"
  define b where "b = step e (TimerFires 0) a"
  define f where "f = run e (replicate 1 RebindTimer) b"
  define k where "k = run e [UtteranceEnd, RebindTimer] f"
  note ta = step_toggle_start [OF assms(3,4,1), of m, folded a_def]
  define h where
    "h = speakResponse e (welcomeMessage (language s)) (language s) (a\<lparr>timers := []\<rparr>)"
  have sb: "b = rerender a h"
    by (simp add: b_def h_def ta(6) assms(5,6) fireTimer_def)
  have hs: "isSpeaking h"
    unfolding h_def by (rule speakResponse_speaking [OF assms(2) welcomeMessage_nonblank])
  have na: "\<not> isSpeaking a" "\<not> isProcessing a" "rebindTimers a = []"
    using ta(2,3,5) assms(7,8,9) by simp_all
  have ch: "render h \<noteq> render a"
    by (rule render_isSpeaking) (simp add: hs na)
  have hf: "recognitionRef h \<noteq> None" "isActive h" "rebindTimers h = []"
    "\<not> isProcessing h" "inflight h = inflight s" "currentTask h = currentTask s"
    "completions h = completions s" "conversation h = conversation s"
    using ta na by (simp_all add: h_def)
  have b: "rebindTimers b \<noteq> []" "last (rebindTimers b) = render b" "length (rebindTimers b) = 1"
    "isActive b" "recognitionRef b \<noteq> None" "\<not> isProcessing b"
    "inflight b = inflight s" "currentTask b = currentTask s"
    "completions b = completions s" "conversation b = conversation s"
    unfolding sb using ch hf by (simp_all add: rerender_timers)
  have b1: "length (rebindTimers b) \<le> 1" using b(3) by simp
  note fs = settled_ref [OF assms(1) b(1,2) b1 b(4), folded f_def]
  have fp: "\<not> isProcessing f" using fs(4) b(6) by simp
  note ks = utterance_end_ready [OF assms(1) fs(1,3) fp fs(2), folded k_def]
  have run: "run e (startSession m) s = k"
    unfolding startSession_def k_def f_def b_def a_def rebind1 [symmetric] by simp
  show "ready (run e (startSession m) s)" "inflight (run e (startSession m) s) = inflight s"
    "currentTask (run e (startSession m) s) = currentTask s"
    "completions (run e (startSession m) s) = completions s"
    "conversation (run e (startSession m) s) = conversation s"
    unfolding run using ks fs b by simp_all
qed

lemma browserEnv_sel:
  "speechRecognition browserEnv" "speechSynthesis browserEnv" "onTaskComplete browserEnv"
  by (simp_all add: browserEnv_def)

lemma started_browser:
  "ready (run browserEnv (startSession (Inr ())) initialState)"
  "inflight (run browserEnv (startSession (Inr ())) initialState) = []"
  "currentTask (run browserEnv (startSession (Inr ())) initialState) = None"
  "completions (run browserEnv (startSession (Inr ())) initialState) = []"
  "conversation (run browserEnv (startSession (Inr ())) initialState) = []"
  using start_ready [OF browserEnv_sel(1,2), of initialState "Inr ()"]
  by (simp_all add: initialState_def)

lemma fiveTurns_state:
  "ready (run browserEnv fiveTurns initialState)"
  "inflight (run browserEnv fiveTurns initialState) = []"
  "currentTask (run browserEnv fiveTurns initialState) = Some (onboardingAt 4 80 Completed)"
  "completions (run browserEnv fiveTurns initialState) = [onboardingAt 4 80 Completed]"
proof -
  define s0 where "s0 = run browserEnv (startSession (Inr ())) initialState"
  define s1 where "s1 = run browserEnv (turn 1000 (ascii ''register new customer Tanaka'') (ascii ''Welcome'')) s0"
  define s2 where "s2 = run browserEnv (turn 2000 (ascii ''his name is Tanaka'') (ascii ''Thanks'')) s1"
  define s3 where "s3 = run browserEnv (turn 3000 (ascii ''passport'') (ascii ''Verified'')) s2"
  define s4 where "s4 = run browserEnv (turn 4000 (ascii ''the basic plan'') (ascii ''Selected'')) s3"
  define s5 where "s5 = run browserEnv (turn 5000 (ascii ''yes please'') (ascii ''Done'')) s4"
  note sr = browserEnv_sel(1)
  have f0: "ready s0" "inflight s0 = []" "currentTask s0 = None" "completions s0 = []"
    by (simp_all only: s0_def started_browser)
  have t1: "trim (ascii ''register new customer Tanaka'') \<noteq> []"
    by (simp only: trim_ascii_inputs ascii_nonempty not_False_eq_True)
  have f1: "ready s1" "inflight s1 = []"
    "currentTask s1 = Some (onboardingAt 0 0 Active)" "completions s1 = []"
    using turn_ready [OF f0(1,2) t1 sr, of 1000 "ascii ''Welcome''", folded s1_def]
    by (simp_all add: f0 trim_ascii_inputs determine_register detect_register
        advance_onboarding)
  have t2: "trim (ascii ''his name is Tanaka'') \<noteq> []"
    by (simp only: trim_ascii_inputs ascii_nonempty not_False_eq_True)
  have f2: "ready s2" "inflight s2 = []"
    "currentTask s2 = Some (onboardingAt 1 20 Active)" "completions s2 = []"
    using turn_ready [OF f1(1,2) t2 sr, of 2000 "ascii ''Thanks''", folded s2_def]
    by (simp_all add: f1 advance_onboarding)
  have t3: "trim (ascii ''passport'') \<noteq> []"
    by (simp only: trim_ascii_inputs ascii_nonempty not_False_eq_True)
  have f3: "ready s3" "inflight s3 = []"
    "currentTask s3 = Some (onboardingAt 2 40 Active)" "completions s3 = []"
    using turn_ready [OF f2(1,2) t3 sr, of 3000 "ascii ''Verified''", folded s3_def]
    by (simp_all add: f2 advance_onboarding)
  have t4: "trim (ascii ''the basic plan'') \<noteq> []"
    by (simp only: trim_ascii_inputs ascii_nonempty not_False_eq_True)
  have f4: "ready s4" "inflight s4 = []"
    "currentTask s4 = Some (onboardingAt 3 60 Active)" "completions s4 = []"
    using turn_ready [OF f3(1,2) t4 sr, of 4000 "ascii ''Selected''", folded s4_def]
    by (simp_all add: f3 advance_onboarding)
  have t5: "trim (ascii ''yes please'') \<noteq> []"
    by (simp only: trim_ascii_inputs ascii_nonempty not_False_eq_True)
  have f5: "ready s5" "inflight s5 = []"
    "currentTask s5 = Some (onboardingAt 4 80 Completed)"
    "completions s5 = [onboardingAt 4 80 Completed]"
    using turn_ready [OF f4(1,2) t5 sr, of 5000 "ascii ''Done''", folded s5_def]
    by (simp_all add: f4 advance_onboarding browserEnv_sel)
  have "run browserEnv fiveTurns initialState = s5"
    unfolding fiveTurns_def s5_def s4_def s3_def s2_def s1_def s0_def
    by (simp only: run_append)
  with f5 show
    "ready (run browserEnv fiveTurns initialState)"
    "inflight (run browserEnv fiveTurns initialState) = []"
    "currentTask (run browserEnv fiveTurns initialState) = Some (onboardingAt 4 80 Completed)"
    "completions (run browserEnv fiveTurns initialState) = [onboardingAt 4 80 Completed]"
    by simp_all
qed

lemma sixthTurn_state:
  "currentTask (run browserEnv (fiveTurns @ sixthTurn) initialState) =
     Some (onboardingAt 4 80 Completed)"
  "completions (run browserEnv (fiveTurns @ sixthTurn) initialState) =
     [onboardingAt 4 80 Completed, onboardingAt 4 80 Completed]"
proof -
  have t6: "trim (ascii ''register new customer Sato'') \<noteq> []"
    by (simp only: trim_ascii_inputs ascii_nonempty not_False_eq_True)
  note f = turn_ready [OF fiveTurns_state(1,2) t6 browserEnv_sel(1), of 6000 "ascii ''Sure''",
      folded sixthTurn_def]
  show "currentTask (run browserEnv (fiveTurns @ sixthTurn) initialState) =
     Some (onboardingAt 4 80 Completed)"
    unfolding run_append using f(3) by (simp add: fiveTurns_state advance_onboarding)
  show "completions (run browserEnv (fiveTurns @ sixthTurn) initialState) =
     [onboardingAt 4 80 Completed, onboardingAt 4 80 Completed]"
    unfolding run_append using f(4)
    by (simp add: fiveTurns_state advance_onboarding browserEnv_sel)
qed

lemma overlap_tasks:
  "currentTask (run browserEnv overlapStart initialState) = Some (onboardingAt 0 0 Active)"
  "length (inflight (run browserEnv (overlapStart @ take 2 overlapFirst) initialState)) = 2"
  "currentTask (run browserEnv (overlapStart @ take 2 overlapFirst) initialState) =
     Some (onboardingAt 0 0 Active)"
  "currentTask (run browserEnv (overlapStart @ overlapFirst) initialState) =
     Some (onboardingAt 1 20 Active)"
  "currentTask (run browserEnv (overlapStart @ overlapFirst @ overlapThird) initialState) =
     Some (onboardingAt 2 40 Active)"
  "currentTask
     (run browserEnv (overlapStart @ overlapFirst @ overlapThird @ overlapLate) initialState) =
     Some (onboardingAt 1 20 Active)"
proof -
  note sr = browserEnv_sel(1)
  define A where "A = ascii ''his name is Tanaka''"
  define B where "B = ascii ''passport''"
  define C where "C = ascii ''the basic plan''"
  have tr: "trim A = A" "trim B = B" "trim C = C" "A \<noteq> []" "B \<noteq> []" "C \<noteq> []"
    by (simp_all add: A_def B_def C_def trim_ascii_inputs ascii_nonempty)
  define s0 where "s0 = run browserEnv overlapStart initialState"
  define b1 where "b1 = step browserEnv (OnResult 2000 [(A, True)]) s0"
  define b2 where "b2 = step browserEnv (OnResult 2010 [(B, True)]) b1"
  define c where "c = step browserEnv (Resolved 0 2100 (ascii ''Thanks'')) b2"
  define d where "d = run browserEnv (replicate 3 RebindTimer) c"
  define f where "f = run browserEnv [UtteranceEnd, RebindTimer] d"
  define g where "g = step browserEnv (OnResult 3000 [(C, True)]) f"
  define h where "h = step browserEnv (Resolved 1 3100 (ascii ''Selected'')) g"
  define k where "k = step browserEnv (Resolved 0 3500 (ascii ''Verified'')) h"
  define rc where "rc = \<lparr>r_view = render s0, r_started = True\<rparr>"
  have t1: "trim (ascii ''register new customer Tanaka'') \<noteq> []"
    by (simp only: trim_ascii_inputs ascii_nonempty not_False_eq_True)
  have s0: "ready s0" "inflight s0 = []" "currentTask s0 = Some (onboardingAt 0 0 Active)"
    using turn_ready [OF started_browser(1,2) t1 sr, of 1000 "ascii ''Welcome''"]
    unfolding s0_def overlapStart_def run_append
    by (simp_all add: started_browser trim_ascii_inputs determine_register detect_register
        advance_onboarding)
  have r0: "recognitionRef s0 = Some rc" "r_started rc" "\<not> v_isProcessing (r_view rc)"
    "\<not> v_isSpeaking (r_view rc)" "isActive s0" "rebindTimers s0 = []"
    "v_currentTask (r_view rc) = Some (onboardingAt 0 0 Active)"
    using s0(1,3) ready_view [OF s0(1)] by (simp_all add: ready_def rc_def render_def)
  have tA: "trim A \<noteq> []" "trim B \<noteq> []" "trim C \<noteq> []" using tr by simp_all
  note o1 = step_onresult [OF r0(1-5) tA(1), of browserEnv 2000, folded b1_def]
  note o2 = step_onresult [OF o1(4) r0(2-4) o1(1) tA(2), of browserEnv 2010, folded b2_def]
  have b2: "inflight b2 = [pendingCall 2000 A (r_view rc), pendingCall 2010 B (r_view rc)]"
    "currentTask b2 = Some (onboardingAt 0 0 Active)" "recognitionRef b2 \<noteq> None"
    "0 < length (inflight b2)" "length (rebindTimers b2) = 2"
    using o1 o2 s0 r0(6) tr by simp_all
  note oc = step_resolved [OF b2(4) o2(1) b2(3), of browserEnv 2100 "ascii ''Thanks''",
      folded c_def]
  have c: "currentTask c = Some (onboardingAt 1 20 Active)"
    "inflight c = [pendingCall 2010 B (r_view rc)]"
    "rebindTimers c \<noteq> []" "last (rebindTimers c) = render c" "length (rebindTimers c) = 3"
    "recognitionRef c \<noteq> None"
    using oc b2 by (simp_all add: r0(7) advance_onboarding dropAt_def)
  have c3: "length (rebindTimers c) \<le> 3" using c(5) by simp
  note od = settled_ref [OF sr c(3,4) c3 oc(1), folded d_def]
  have dp: "\<not> isProcessing d" using od(4) oc(2) by simp
  note fs = utterance_end_ready [OF sr od(1,3) dp od(2), folded f_def]
  have f: "currentTask f = Some (onboardingAt 1 20 Active)"
    "inflight f = [pendingCall 2010 B (r_view rc)]"
    using fs od c by simp_all
  define rf where "rf = \<lparr>r_view = render f, r_started = True\<rparr>"
  have rf: "recognitionRef f = Some rf" "r_started rf" "\<not> v_isProcessing (r_view rf)"
    "\<not> v_isSpeaking (r_view rf)" "isActive f"
    "v_currentTask (r_view rf) = Some (onboardingAt 1 20 Active)"
    using fs(1) f(1) ready_view [OF fs(1)] by (simp_all add: ready_def rf_def render_def)
  note og = step_onresult [OF rf(1-5) tA(3), of browserEnv 3000, folded g_def]
  have g: "inflight g = [pendingCall 2010 B (r_view rc), pendingCall 3000 C (r_view rf)]"
    "recognitionRef g \<noteq> None" "1 < length (inflight g)"
    using og f tr by simp_all
  note oh = step_resolved [OF g(3) og(1) g(2), of browserEnv 3100 "ascii ''Selected''",
      folded h_def]
  have h: "currentTask h = Some (onboardingAt 2 40 Active)"
    "inflight h = [pendingCall 2010 B (r_view rc)]" "recognitionRef h \<noteq> None"
    "0 < length (inflight h)"
    using oh g by (simp_all add: rf(6) advance_onboarding dropAt_def)
  note ok = step_resolved [OF h(4) oh(1) h(3), of browserEnv 3500 "ascii ''Verified''",
      folded k_def]
  have k: "currentTask k = Some (onboardingAt 1 20 Active)"
    using ok h by (simp add: r0(7) advance_onboarding)
  have r2: "run browserEnv (overlapStart @ take 2 overlapFirst) initialState = b2"
    unfolding run_append s0_def [symmetric] overlapFirst_def b2_def b1_def A_def B_def
    by simp
  have rf1: "run browserEnv (overlapStart @ overlapFirst) initialState = f"
    unfolding run_append s0_def [symmetric] overlapFirst_def f_def d_def c_def b2_def b1_def
      A_def B_def rebind3 [symmetric]
    using run_append [of browserEnv "[OnResult 2000 [(ascii ''his name is Tanaka'', True)],
        OnResult 2010 [(ascii ''passport'', True)], Resolved 0 2100 (ascii ''Thanks''),
        RebindTimer, RebindTimer, RebindTimer]" "[UtteranceEnd, RebindTimer]"
        "run browserEnv overlapStart initialState"]
    by simp
  have rh: "run browserEnv (overlapStart @ overlapFirst @ overlapThird) initialState = h"
    using rf1 unfolding run_append overlapThird_def h_def g_def C_def by simp
  have rk: "run browserEnv (overlapStart @ overlapFirst @ overlapThird @ overlapLate)
      initialState = k"
    using rh unfolding run_append overlapLate_def k_def by simp
  show "currentTask (run browserEnv overlapStart initialState) = Some (onboardingAt 0 0 Active)"
    using s0(3) by (simp add: s0_def)
  show "length (inflight (run browserEnv (overlapStart @ take 2 overlapFirst) initialState)) = 2"
    "currentTask (run browserEnv (overlapStart @ take 2 overlapFirst) initialState) =
       Some (onboardingAt 0 0 Active)"
    unfolding r2 using b2 by simp_all
  show "currentTask (run browserEnv (overlapStart @ overlapFirst) initialState) =
     Some (onboardingAt 1 20 Active)"
    unfolding rf1 by (rule f)
  show "currentTask (run browserEnv (overlapStart @ overlapFirst @ overlapThird) initialState) =
     Some (onboardingAt 2 40 Active)"
    unfolding rh by (rule h)
  show "currentTask
     (run browserEnv (overlapStart @ overlapFirst @ overlapThird @ overlapLate) initialState) =
     Some (onboardingAt 1 20 Active)"
    unfolding rk by (rule k)
qed

lemma dispatchingState_fields:
  "isActive dispatchingState" "isProcessing dispatchingState" "\<not> isSpeaking dispatchingState"
  "currentTask dispatchingState = None"
  "length (conversation dispatchingState) = 1"
  "inflight dispatchingState =
     [pendingCall 1000 (ascii ''register new customer Tanaka'')
        (render (run browserEnv (startSession (Inr ())) initialState))]"
  "recognitionRef dispatchingState =
     Some \<lparr>r_view = render (run browserEnv (startSession (Inr ())) initialState),
           r_started = True\<rparr>"
  "rebindTimers dispatchingState = [render dispatchingState]"
  "v_currentTask (render (run browserEnv (startSession (Inr ())) initialState)) = None"
  "\<not> v_isProcessing (render (run browserEnv (startSession (Inr ())) initialState))"
  "\<not> v_isSpeaking (render (run browserEnv (startSession (Inr ())) initialState))"
proof -
  define s0 where "s0 = run browserEnv (startSession (Inr ())) initialState"
  define rc where "rc = \<lparr>r_view = render s0, r_started = True\<rparr>"
  have t: "trim (ascii ''register new customer Tanaka'') \<noteq> []"
    by (simp only: trim_ascii_inputs ascii_nonempty not_False_eq_True)
  have d: "dispatchingState =
      step browserEnv (OnResult 1000 [(ascii ''register new customer Tanaka'', True)]) s0"
    unfolding dispatchingState_def run_append s0_def by (simp only: run.simps)
  have r0: "recognitionRef s0 = Some rc" "r_started rc" "\<not> v_isProcessing (r_view rc)"
    "\<not> v_isSpeaking (r_view rc)" "isActive s0" "rebindTimers s0 = []"
    using started_browser(1) ready_view [OF started_browser(1)]
    by (simp_all add: ready_def rc_def s0_def)
  note f = step_onresult [OF r0(1-5) t, of browserEnv 1000, folded d]
  have s0f: "currentTask s0 = None" "conversation s0 = []" "inflight s0 = []"
    "\<not> isSpeaking s0"
    using started_browser by (simp_all add: s0_def ready_def)
  show "isActive dispatchingState" "isProcessing dispatchingState"
    "\<not> isSpeaking dispatchingState" "currentTask dispatchingState = None"
    "length (conversation dispatchingState) = 1"
    using f s0f by simp_all
  show "inflight dispatchingState =
     [pendingCall 1000 (ascii ''register new customer Tanaka'')
        (render (run browserEnv (startSession (Inr ())) initialState))]"
    using f(6) s0f by (simp add: trim_ascii_inputs rc_def s0_def)
  show "recognitionRef dispatchingState =
     Some \<lparr>r_view = render (run browserEnv (startSession (Inr ())) initialState),
           r_started = True\<rparr>"
    using f(4) by (simp add: rc_def s0_def)
  show "rebindTimers dispatchingState = [render dispatchingState]"
    using f(5) r0(6) by simp
  show "v_currentTask (render (run browserEnv (startSession (Inr ())) initialState)) = None"
    "\<not> v_isProcessing (render (run browserEnv (startSession (Inr ())) initialState))"
    "\<not> v_isSpeaking (render (run browserEnv (startSession (Inr ())) initialState))"
    using r0(3,4) s0f(1) by (simp_all add: rc_def s0_def render_def)
qed

lemma stop_then_resolved:
  assumes "isActive s" "i < length (inflight s)"
  shows "phase (step e (Toggle m) s) = Idle"
    and "conversation (step e (Toggle m) s) = conversation s"
    and "currentTask (step e (Toggle m) s) = currentTask s"
    and "inflight (step e (Toggle m) s) = inflight s"
    and "conversation (run e [Toggle m, Resolved i now r] s) =
       conversation s @
         [\<lparr>turn_id = now + 1, turn_type = Agent, content = r, timestamp = now,
           turn_language = turn_language (p_userTurn (inflight s ! i)),
           reasoning = Some (ascii ''AI analysis and task progression''),
           actions = None, confidence = Some (9 / 10)\<rparr>]"
    and "currentTask (run e [Toggle m, Resolved i now r] s) =
       (case v_currentTask (p_view (inflight s ! i)) of
          None \<Rightarrow>
            (case determineTaskType (p_input (inflight s ! i)) of
               None \<Rightarrow> currentTask s
             | Some ty \<Rightarrow> Some (newTask now ty (turn_language (p_userTurn (inflight s ! i)))))
        | Some t \<Rightarrow> Some (advanceTask t))"
proof -
  have v: "v_isActive (render s)" using assms(1) by (simp add: render_def)
  define s1 where "s1 =
      s\<lparr>isActive := False, isListening := False, isSpeaking := False, isProcessing := False,
        streamRef := map_option (\<lambda>r. Closed) (streamRef s),
        audioContextRef := map_option (\<lambda>r. Closed) (audioContextRef s),
        timers := clearTimeout (conversationTimeoutRef s) (timers s)\<rparr>"
  have st: "step e (Toggle m) s = s1"
    using assms(1) by (simp add: toggleAgent_stop [OF v] s1_def rerender_inactive)
  have s1: "\<not> isActive s1" "conversation s1 = conversation s" "currentTask s1 = currentTask s"
    "inflight s1 = inflight s"
    by (simp_all add: s1_def)
  show "phase (step e (Toggle m) s) = Idle" "conversation (step e (Toggle m) s) = conversation s"
    "currentTask (step e (Toggle m) s) = currentTask s"
    "inflight (step e (Toggle m) s) = inflight s"
    unfolding st using s1 by (simp_all add: phase_def)
  have rn: "run e [Toggle m, Resolved i now r] s = step e (Resolved i now r) s1"
    by (simp only: run.simps st)
  have il: "i < length (inflight s1)" using assms(2) s1(4) by simp
  show "conversation (run e [Toggle m, Resolved i now r] s) =
       conversation s @
         [\<lparr>turn_id = now + 1, turn_type = Agent, content = r, timestamp = now,
           turn_language = turn_language (p_userTurn (inflight s ! i)),
           reasoning = Some (ascii ''AI analysis and task progression''),
           actions = None, confidence = Some (9 / 10)\<rparr>]"
    unfolding rn using il by (simp add: resolved_conversation s1)
  show "currentTask (run e [Toggle m, Resolved i now r] s) =
       (case v_currentTask (p_view (inflight s ! i)) of
          None \<Rightarrow>
            (case determineTaskType (p_input (inflight s ! i)) of
               None \<Rightarrow> currentTask s
             | Some ty \<Rightarrow> Some (newTask now ty (turn_language (p_userTurn (inflight s ! i)))))
        | Some t \<Rightarrow> Some (advanceTask t))"
    unfolding rn using il by (simp add: resolved_task s1 split: option.splits)
qed

lemma rebound_dispatching:
  "run browserEnv [RebindTimer] dispatchingState =
     dispatchingState\<lparr>rebindTimers := [],
       recognitionRef := Some \<lparr>r_view = render dispatchingState, r_started = True\<rparr>\<rparr>"
proof -
  have v: "v_isActive (render dispatchingState)" "\<not> v_isSpeaking (render dispatchingState)"
    by (simp_all add: render_def dispatchingState_fields)
  show ?thesis
    by (simp add: step_rebind [OF dispatchingState_fields(8)] rebind_def
        initializeSpeechRecognition_def browserEnv_sel v Let_def del: step.simps)
qed




section \<open>Stale responses\<close>

text \<open>
  C1, as amended. The component has no turn-sequence number, and \<open>stop()\<close> clears the
  flags and leaves the call in flight. When \<open>stop()\<close> is called on an active agent
  while call \<open>i\<close> is in flight, the agent is idle and the conversation, the task and the
  calls in flight are as before; the response that arrives later is applied as in a live
  turn: an agent turn with the response text is appended to the conversation, and the
  task is created or advanced by \<open>updateTaskContext\<close> from the closure of the call.
\<close>

theorem stale_response_applied:
  assumes "isActive s" "i < length (inflight s)"
  shows "phase (step e (Toggle m) s) = Idle \<and>
     conversation (step e (Toggle m) s) = conversation s \<and>
     currentTask (step e (Toggle m) s) = currentTask s \<and>
     inflight (step e (Toggle m) s) = inflight s \<and>
     conversation (run e [Toggle m, Resolved i now r] s) =
       conversation s @
         [\<lparr>turn_id = now + 1, turn_type = Agent, content = r, timestamp = now,
           turn_language = turn_language (p_userTurn (inflight s ! i)),
           reasoning = Some (ascii ''AI analysis and task progression''),
           actions = None, confidence = Some (9 / 10)\<rparr>] \<and>
     currentTask (run e [Toggle m, Resolved i now r] s) =
       (case v_currentTask (p_view (inflight s ! i)) of
          None \<Rightarrow>
            (case determineTaskType (p_input (inflight s ! i)) of
               None \<Rightarrow> currentTask s
             | Some ty \<Rightarrow> Some (newTask now ty (turn_language (p_userTurn (inflight s ! i)))))
        | Some t \<Rightarrow> Some (advanceTask t))"
  using stop_then_resolved [OF assms] by blast

text \<open>The statement at the agent that has dispatched one transcript.\<close>

theorem stale_response_applied_witness:
  "isActive dispatchingState \<and> 0 < length (inflight dispatchingState) \<and>
   phase (step browserEnv (Toggle (Inr ())) dispatchingState) = Idle \<and>
   length (conversation
     (run browserEnv [Toggle (Inr ()), Resolved 0 2000 (ascii ''Welcome'')] dispatchingState)) = 2"
proof -
  have a: "isActive dispatchingState" by (rule dispatchingState_fields)
  have b: "0 < length (inflight dispatchingState)" by (simp add: dispatchingState_fields)
  show ?thesis
    using a b stale_response_applied [OF a b, of browserEnv "Inr ()" 2000 "ascii ''Welcome''"]
    by (simp add: dispatchingState_fields del: step.simps run.simps)
qed

text \<open>
  C1 as stated fails: the agent is stopped while the call for the transcript
  \<open>register new customer Tanaka\<close> is in flight; the conversation has one turn and there
  is no task. The response arrives in the idle agent: the conversation has two turns and
  an onboarding task exists.
\<close>

theorem stale_response_counterexample:
  "phase (step browserEnv (Toggle (Inr ())) dispatchingState) = Idle \<and>
   length (conversation (step browserEnv (Toggle (Inr ())) dispatchingState)) = 1 \<and>
   currentTask (step browserEnv (Toggle (Inr ())) dispatchingState) = None \<and>
   length (conversation
     (run browserEnv [Toggle (Inr ()), Resolved 0 2000 (ascii ''Welcome'')] dispatchingState)) = 2 \<and>
   currentTask
     (run browserEnv [Toggle (Inr ()), Resolved 0 2000 (ascii ''Welcome'')] dispatchingState) =
     Some (newTask 2000 Onboarding En)"
proof -
  have a: "isActive dispatchingState" by (rule dispatchingState_fields)
  have b: "0 < length (inflight dispatchingState)" by (simp add: dispatchingState_fields)
  show ?thesis
    using stop_then_resolved(1,2,3) [OF a b, of browserEnv "Inr ()"]
      stop_then_resolved(5,6) [OF a b, of browserEnv "Inr ()" 2000 "ascii ''Welcome''"]
    by (simp add: dispatchingState_fields determine_register detect_register
        del: step.simps run.simps)
qed

section \<open>Transcripts during a turn\<close>

text \<open>
  C2, as amended. The guard of \<open>handleUserInput\<close> reads \<open>isProcessing\<close> and
  \<open>isSpeaking\<close> of the closure \<open>v\<close> of the handler, which is the render the recogniser
  was made from. A final transcript whose handler sees one of them set is discarded:
  \<open>handleUserInput\<close> returns the state as it is, so that \<open>recognition.onresult\<close>, and
  the event of a recogniser with this closure, change the displayed transcript and nothing
  else; the state has no queue, and no handler reads the displayed transcript. A final
  transcript whose handler sees both flags clear is dispatched once by this handler: one
  call with this input joins the calls in flight. Nothing is said here of the number of
  calls in flight.
\<close>

theorem dropped_or_dispatched_once:
  "(v_isProcessing v \<or> v_isSpeaking v \<longrightarrow>
      handleUserInput e v now input s = s \<and>
      recognition_onresult e v now results s =
        s\<lparr>transcript :=
            (if concat (map fst (filter (\<lambda>r. \<not> snd r) results)) \<noteq> []
             then concat (map fst (filter (\<lambda>r. \<not> snd r) results))
             else concat (map fst (filter snd results)))\<rparr> \<and>
      (recognitionRef s = Some \<lparr>r_view = v, r_started = True\<rparr> \<longrightarrow>
         step e (OnResult now results) s =
           s\<lparr>transcript :=
               (if concat (map fst (filter (\<lambda>r. \<not> snd r) results)) \<noteq> []
                then concat (map fst (filter (\<lambda>r. \<not> snd r) results))
                else concat (map fst (filter snd results)))\<rparr>)) \<and>
   (\<not> v_isProcessing v \<and> \<not> v_isSpeaking v \<longrightarrow>
      (\<exists>p. inflight (handleUserInput e v now input s) = inflight s @ [p] \<and> p_input p = input))"
proof (intro conjI impI)
  assume g: "v_isProcessing v \<or> v_isSpeaking v"
  then show "handleUserInput e v now input s = s"
    by (simp add: handleUserInput_def)
  from g show d: "recognition_onresult e v now results s =
        s\<lparr>transcript :=
            (if concat (map fst (filter (\<lambda>r. \<not> snd r) results)) \<noteq> []
             then concat (map fst (filter (\<lambda>r. \<not> snd r) results))
             else concat (map fst (filter snd results)))\<rparr>"
    by (simp add: recognition_onresult_def handleUserInput_def Let_def)
  assume "recognitionRef s = Some \<lparr>r_view = v, r_started = True\<rparr>"
  then show "step e (OnResult now results) s =
           s\<lparr>transcript :=
               (if concat (map fst (filter (\<lambda>r. \<not> snd r) results)) \<noteq> []
                then concat (map fst (filter (\<lambda>r. \<not> snd r) results))
                else concat (map fst (filter snd results)))\<rparr>"
    by (simp add: d rerender_same render_def)
next
  assume "\<not> v_isProcessing v \<and> \<not> v_isSpeaking v"
  then show "\<exists>p. inflight (handleUserInput e v now input s) = inflight s @ [p] \<and> p_input p = input"
    by (simp add: handleUserInput_def Let_def)
qed

text \<open>The two parts at concrete states.\<close>

theorem dropped_or_dispatched_once_witness:
  "v_isProcessing (render dispatchingState) \<and>
   handleUserInput browserEnv (render dispatchingState) 1500 (ascii ''send the follow-up email'')
     dispatchingState = dispatchingState \<and>
   \<not> v_isProcessing (render initialState) \<and> \<not> v_isSpeaking (render initialState) \<and>
   (\<exists>p. inflight (handleUserInput browserEnv (render initialState) 1 (ascii ''passport'') initialState) =
          inflight initialState @ [p] \<and> p_input p = ascii ''passport'')"
proof -
  have b: "v_isProcessing (render dispatchingState)"
    by (simp add: render_def dispatchingState_fields)
  have c: "\<not> v_isProcessing (render initialState) \<and> \<not> v_isSpeaking (render initialState)"
    by (simp add: render_def initialState_def)
  show ?thesis
    using b c
      dropped_or_dispatched_once [of "render dispatchingState" browserEnv 1500
        "ascii ''send the follow-up email''" dispatchingState "[]"]
      dropped_or_dispatched_once [of "render initialState" browserEnv 1 "ascii ''passport''"
        initialState "[]"]
    by blast
qed

text \<open>
  C2 as stated fails, in two ways. A second final transcript arrives while the first is
  being dispatched. On the recogniser that delivered the first, whose closure is the render
  before the dispatch, it is dispatched as well: two calls are in flight. After the timer
  of the effect has made the recogniser anew from the render of the dispatching agent, it
  is dropped: the state changes in the displayed transcript only, the one call in flight
  is that of the first transcript, and when the turn has ended no call is in flight and
  the conversation holds the first transcript and its response only.
\<close>

theorem transcript_dropped_counterexample:
  "phase dispatchingState = Dispatching \<and>
   length (inflight (step browserEnv (OnResult 1500 [(ascii ''send the follow-up email'', True)])
      dispatchingState)) = 2 \<and>
   phase (run browserEnv [RebindTimer] dispatchingState) = Dispatching \<and>
   step browserEnv (OnResult 1500 [(ascii ''send the follow-up email'', True)])
      (run browserEnv [RebindTimer] dispatchingState) =
     (run browserEnv [RebindTimer] dispatchingState)
       \<lparr>transcript := ascii ''send the follow-up email''\<rparr> \<and>
   map p_input
     (inflight
        (run browserEnv
           [RebindTimer, OnResult 1500 [(ascii ''send the follow-up email'', True)]]
           dispatchingState)) = [ascii ''register new customer Tanaka''] \<and>
   inflight
     (run browserEnv
        [RebindTimer, OnResult 1500 [(ascii ''send the follow-up email'', True)],
         Resolved 0 2000 (ascii ''Welcome''), UtteranceEnd] dispatchingState) = [] \<and>
   length (conversation
     (run browserEnv
        [RebindTimer, OnResult 1500 [(ascii ''send the follow-up email'', True)],
         Resolved 0 2000 (ascii ''Welcome''), UtteranceEnd] dispatchingState)) = 2"
proof -
  define s1 where "s1 = run browserEnv [RebindTimer] dispatchingState"
  define B where "B = ascii ''send the follow-up email''"
  have tB: "trim B \<noteq> []" by (simp add: B_def trim_ascii_inputs ascii_nonempty)
  have p: "phase dispatchingState = Dispatching"
    by (simp add: phase_def dispatchingState_fields)
  define rc where
    "rc = \<lparr>r_view = render (run browserEnv (startSession (Inr ())) initialState),
            r_started = True\<rparr>"
  have rc: "recognitionRef dispatchingState = Some rc" "r_started rc"
    "\<not> v_isProcessing (r_view rc)" "\<not> v_isSpeaking (r_view rc)"
    by (simp_all add: rc_def dispatchingState_fields)
  note two = step_onresult(6) [OF rc dispatchingState_fields(1) tB, of browserEnv 1500]
  have two': "length (inflight (step browserEnv (OnResult 1500 [(B, True)]) dispatchingState)) = 2"
    using two by (simp add: dispatchingState_fields del: step.simps)
  have s1f: "recognitionRef s1 = Some \<lparr>r_view = render dispatchingState, r_started = True\<rparr>"
    "isActive s1" "isProcessing s1" "inflight s1 = inflight dispatchingState"
    "length (conversation s1) = 1"
    unfolding s1_def rebound_dispatching by (simp_all add: dispatchingState_fields)
  have g: "v_isProcessing (render dispatchingState) \<or> v_isSpeaking (render dispatchingState)"
    by (simp add: render_def dispatchingState_fields)
  have dr: "step browserEnv (OnResult 1500 [(B, True)]) s1 = s1\<lparr>transcript := B\<rparr>"
    by (rule step_onresult_drop [OF s1f(1)]) (simp_all add: g)
  define s2 where "s2 = s1\<lparr>transcript := B\<rparr>"
  have s2f: "0 < length (inflight s2)" "isActive s2" "recognitionRef s2 \<noteq> None"
    "length (conversation s2) = 1" "length (inflight s2) = 1"
    by (simp_all add: s2_def s1f dispatchingState_fields)
  note rs = step_resolved [OF s2f(1,2,3), of browserEnv 2000 "ascii ''Welcome''"]
  have fin: "inflight (step browserEnv (Resolved 0 2000 (ascii ''Welcome'')) s2) = []"
    "length (conversation (step browserEnv (Resolved 0 2000 (ascii ''Welcome'')) s2)) = 2"
    using rs(5,8) s2f by (cases "inflight s2"; simp add: dropAt_def del: step.simps)+
  have r4: "run browserEnv
        [RebindTimer, OnResult 1500 [(B, True)], Resolved 0 2000 (ascii ''Welcome''),
         UtteranceEnd] dispatchingState =
      step browserEnv UtteranceEnd (step browserEnv (Resolved 0 2000 (ascii ''Welcome'')) s2)"
    using dr unfolding s2_def s1_def by (simp only: run.simps)
  have r2: "run browserEnv [RebindTimer, OnResult 1500 [(B, True)]] dispatchingState = s2"
    using dr unfolding s2_def s1_def by (simp only: run.simps)
  have ue: "inflight (step browserEnv UtteranceEnd x) = inflight x"
    "conversation (step browserEnv UtteranceEnd x) = conversation x" for x
    by simp_all
  show ?thesis
    unfolding B_def [symmetric] s1_def [symmetric] r4 r2 [unfolded s1_def [symmetric]] ue
    using p two' dr fin s1f
    by (simp add: phase_def s2_def dispatchingState_fields del: step.simps)
qed

section \<open>Completion of a task\<close>

text \<open>
  C3. After five turns the onboarding task has reached its last step, its status is
  \<open>completed\<close> and \<open>onTaskComplete\<close> has been called once. The sixth turn takes the
  update branch again, which does not look at the status, and calls \<open>onTaskComplete\<close> a
  second time with the same task.
\<close>

theorem completion_fires_again:
  "completions (run browserEnv fiveTurns initialState) = [onboardingAt 4 80 Completed] \<and>
   status (onboardingAt 4 80 Completed) = Completed \<and>
   currentTask (run browserEnv fiveTurns initialState) = Some (onboardingAt 4 80 Completed) \<and>
   completions (run browserEnv (fiveTurns @ sixthTurn) initialState) =
     [onboardingAt 4 80 Completed, onboardingAt 4 80 Completed]"
  by (simp add: fiveTurns_state sixthTurn_state(2))

text \<open>
  C4. After five turns the only task is completed, so no task is active. The transcript
  of the sixth turn matches the onboarding keywords, and no task is made for it: the task
  of the state is still the completed one that was made at time 1100.
\<close>

theorem no_task_after_completion:
  "determineTaskType (ascii ''register new customer Sato'') = Some Onboarding \<and>
   map_option status (currentTask (run browserEnv fiveTurns initialState)) = Some Completed \<and>
   map_option task_id (currentTask (run browserEnv (fiveTurns @ sixthTurn) initialState)) =
     Some 1100 \<and>
   map_option status (currentTask (run browserEnv (fiveTurns @ sixthTurn) initialState)) =
     Some Completed"
  by (simp add: determine_sato fiveTurns_state(3) sixthTurn_state(1))

section \<open>Steps of a task\<close>

text \<open>
  C5. The step of an active task decreases, with no stop. \<open>updateTaskContext\<close> advances
  the task of its closure and stores the result, where the conversation is extended with
  the updater form of its setter. In the run of overlapping turns two calls are in flight
  that both hold the task at step 0. The answer to the first takes the task to step 1, a
  later turn takes it to step 2, and the answer to the second call, which comes last,
  stores step 1 again.
\<close>

theorem step_decreases_on_overlap:
  "length (inflight (run browserEnv (overlapStart @ take 2 overlapFirst) initialState)) = 2 \<and>
   currentTask (run browserEnv (overlapStart @ take 2 overlapFirst) initialState) =
     Some (onboardingAt 0 0 Active) \<and>
   currentTask (run browserEnv (overlapStart @ overlapFirst) initialState) =
     Some (onboardingAt 1 20 Active) \<and>
   currentTask (run browserEnv (overlapStart @ overlapFirst @ overlapThird) initialState) =
     Some (onboardingAt 2 40 Active) \<and>
   currentTask
     (run browserEnv (overlapStart @ overlapFirst @ overlapThird @ overlapLate) initialState) =
     Some (onboardingAt 1 20 Active) \<and>
   currentStep (onboardingAt 1 20 Active) < currentStep (onboardingAt 2 40 Active)"
  by (simp add: overlap_tasks)

section \<open>The onboarding scenario\<close>



section \<open>Two utterances\<close>

text \<open>
  C7. \<open>speakResponse\<close> of AutonomousVoiceAgent.tsx called with A and at once with B
  makes two \<open>speak\<close> calls and no \<open>cancel\<close>: the platform holds both utterances, A
  before B. \<open>speakResponse\<close> of VoiceInterface.tsx calls \<open>cancel\<close> before each
  \<open>speak\<close>, and the platform holds B only.
\<close>

theorem speak_twice_queues_both:
  "synthCalls (speakResponse browserEnv (ascii ''B'') En
      (speakResponse browserEnv (ascii ''A'') En initialState)) =
     [SynthSpeak (mkUtterance browserEnv (ascii ''A'') En),
      SynthSpeak (mkUtterance browserEnv (ascii ''B'') En)] \<and>
   map u_text (synthQueue (synthCalls (speakResponse browserEnv (ascii ''B'') En
      (speakResponse browserEnv (ascii ''A'') En initialState))) []) = [ascii ''A'', ascii ''B''] \<and>
   vi_synthCalls (VoiceInterface_speakResponse browserEnv En (ascii ''B'')
      (VoiceInterface_speakResponse browserEnv En (ascii ''A'')
         \<lparr>vi_isSpeaking = False, vi_synthCalls = []\<rparr>)) =
     [SynthCancel,
      SynthSpeak ((mkUtterance browserEnv (ascii ''A'') En)\<lparr>u_volume := 8 / 10\<rparr>),
      SynthCancel,
      SynthSpeak ((mkUtterance browserEnv (ascii ''B'') En)\<lparr>u_volume := 8 / 10\<rparr>)] \<and>
   map u_text (synthQueue (vi_synthCalls (VoiceInterface_speakResponse browserEnv En (ascii ''B'')
      (VoiceInterface_speakResponse browserEnv En (ascii ''A'')
         \<lparr>vi_isSpeaking = False, vi_synthCalls = []\<rparr>))) []) = [ascii ''B'']"
  by (simp add: speakResponse_def VoiceInterface_speakResponse_def mkUtterance_def pickVoice_def
      browserEnv_def initialState_def trim_def isWhiteSpace_def ascii_def Let_def)

section \<open>Start without a microphone\<close>




section \<open>Failure of the remote call\<close>



section \<open>Language detection\<close>

text \<open>
  C10. The language of a string is \<open>ja\<close> exactly when one of its code units lies in
  U+3040 to U+309F (hiragana), U+30A0 to U+30FF (katakana) or U+4E00 to U+9FAF (CJK
  ideographs), and \<open>en\<close> otherwise. Every character of these ranges is a single code
  unit and the halves of a surrogate pair lie outside them, so the code units decide it.
  The tag of the user turn that \<open>handleUserInput\<close> appends is this function of the
  transcript alone, whatever the state, the view, the platform and the time.
\<close>

theorem detectLanguage_ranges:
  "(detectLanguage text = Ja \<longleftrightarrow>
      (\<exists>c\<in>set text. (0x3040 \<le> c \<and> c \<le> 0x309F) \<or> (0x30A0 \<le> c \<and> c \<le> 0x30FF) \<or>
                       (0x4E00 \<le> c \<and> c \<le> 0x9FAF))) \<and>
   (detectLanguage text = En \<longleftrightarrow>
      \<not> (\<exists>c\<in>set text. (0x3040 \<le> c \<and> c \<le> 0x309F) \<or> (0x30A0 \<le> c \<and> c \<le> 0x30FF) \<or>
                          (0x4E00 \<le> c \<and> c \<le> 0x9FAF))) \<and>
   (\<not> v_isProcessing v \<and> \<not> v_isSpeaking v \<longrightarrow>
      map turn_language (conversation (handleUserInput e v now text s)) =
        map turn_language (conversation s) @ [detectLanguage text])"
  by (simp add: handleUserInput_def Let_def detectLanguage_def japaneseRegex_test_iff
      japaneseClass_def)

text \<open>The statement at a Japanese and at an English string.\<close>

theorem detectLanguage_ranges_witness:
  "detectLanguage [0x5951, 0x7D04] = Ja \<and> detectLanguage (ascii ''visit log'') = En \<and>
   map turn_language
     (conversation
        (handleUserInput browserEnv (render initialState) 1 [0x5951, 0x7D04] initialState)) =
     [Ja]"
  using detectLanguage_ranges [of "[0x5951, 0x7D04]" "render initialState" browserEnv 1 initialState]
    detectLanguage_ranges [of "ascii ''visit log''" "render initialState" browserEnv 1 initialState]
  by (simp add: ascii_def render_def initialState_def)

end
